theory Spec2Isabelle
  imports Complex_Main
begin

text \<open>
  A model of the x-scraper worker: the classifier service, the document store, the
  tweet-processing pipeline with its recovery sweep, the deep scan and the cron job that
  rotates over the tracked users, the session manager, and the token data of a Discord
  embed.  Every source function is a function on an explicit state; what the browser,
  the classifier and the market-data service answer is a parameter.  The definitions
  come first, the properties after them.
\<close>

section \<open>JavaScript values\<close>

text \<open>
  A value of type \<open>string | null | undefined\<close> is a \<open>string option\<close>; \<open>None\<close> stands for
  both \<open>null\<close> and \<open>undefined\<close>.  \<open>truthy\<close> is JavaScript truthiness of such a value and
  \<open>orEmpty v\<close> is the expression \<^verbatim>\<open>v || ''\<close>.
\<close>

definition truthy :: "string option \<Rightarrow> bool" where
  "truthy v = (case v of None \<Rightarrow> False | Some s \<Rightarrow> s \<noteq> [])"

definition orEmpty :: "string option \<Rightarrow> string" where
  "orEmpty v = (case v of None \<Rightarrow> [] | Some s \<Rightarrow> s)"

section \<open>services/aiService.ts\<close>

record Contract =
  address :: string
  blockchain :: "string option"

text \<open>The object \<^verbatim>\<open>{category, tags, contracts}\<close> that \<^verbatim>\<open>classifyTweet\<close> returns.\<close>

record Analysis =
  category :: string
  tags :: "string list"
  contracts :: "Contract list"

record ClassificationInput =
  ci_text :: string
  ci_mediaUrl :: "string option"
  ci_mimeType :: "string option"

datatype contentPart = TextPart string | InlineData string string

text \<open>
  What one call of \<^verbatim>\<open>ai.models.generateContent\<close> followed by \<^verbatim>\<open>JSON.parse\<close> can do:
  deliver a parsed object, deliver a response without text, or throw (the error's
  \<^verbatim>\<open>status\<close>, if it has one).
\<close>

datatype aiOutcome = AiText Analysis | AiNoText | AiThrows "nat option"

text \<open>
  The fields of a DexScreener pair that the worker reads (\<^verbatim>\<open>baseToken.symbol\<close>,
  \<^verbatim>\<open>priceUsd\<close>, \<^verbatim>\<open>liquidity?.usd\<close>, \<^verbatim>\<open>volume.h24\<close>, \<^verbatim>\<open>fdv\<close>), what a request to the service
  can do, a JavaScript number that may be \<^verbatim>\<open>NaN\<close>, and the \<^verbatim>\<open>Tweet\<close> of scraper.ts.
\<close>

record DexScreenerPair =
  baseSymbol :: string
  pairPriceUsd :: "string option"
  pairLiquidityUsd :: "rat option"
  pairVolumeH24 :: rat
  pairFdv :: "rat option"

datatype dexResponse = DexThrows | DexPairs "DexScreenerPair list"

datatype jsnum = Num rat | NaN

record Tweet =
  t_username :: "string option"
  t_text :: "string option"
  t_url :: "string option"
  t_timestamp :: "string option"
  t_mediaUrl :: "string option"
  t_scrapedFor :: "string option"

text \<open>
  The collaborators of the pipeline.  \<open>generateContent n parts\<close> is the outcome of the
  \<open>n\<close>-th call of the external classifier (counted from 0) on \<open>parts\<close>, with the time in
  milliseconds it takes to settle; \<open>urlToBase64 url\<close> is the downloaded image in base 64
  (the empty string when the download fails, as the source's \<^verbatim>\<open>urlToBase64\<close> returns) with
  the time the download takes; \<open>dexScreener address\<close> is the answer of the market-data
  service; \<open>validDateString s\<close> says whether \<^verbatim>\<open>new Date(s)\<close> is a valid date.  For the
  \<open>n\<close>-th deep scan (counted from 0): \<open>newPage n\<close> says whether \<^verbatim>\<open>browser.newPage()\<close>
  succeeds and \<open>setViewport n\<close> whether \<^verbatim>\<open>page.setViewport\<close> does, \<open>scrapeUserTweets n user\<close>
  and \<open>scrapeMentions n user\<close> are the posts the two scrapers return (\<open>None\<close> for their
  error object), and \<open>pageClose n\<close> says whether \<^verbatim>\<open>page.close()\<close> succeeds.
\<close>

record env =
  generateContent :: "nat \<Rightarrow> contentPart list \<Rightarrow> aiOutcome \<times> nat"
  urlToBase64 :: "string \<Rightarrow> string \<times> nat"
  dexScreener :: "string \<Rightarrow> dexResponse"
  parseFloat :: "string \<Rightarrow> jsnum"
  validDateString :: "string \<Rightarrow> bool"
  newPage :: "nat \<Rightarrow> bool"
  setViewport :: "nat \<Rightarrow> bool"
  scrapeUserTweets :: "nat \<Rightarrow> string \<Rightarrow> Tweet list option"
  scrapeMentions :: "nat \<Rightarrow> string \<Rightarrow> Tweet list option"
  pageClose :: "nat \<Rightarrow> bool"

section \<open>Documents (models/Post.ts, models/TweetsIA.ts, models/ScraperState.ts)\<close>

datatype date = DateOfString string | DateOfMillis nat

text \<open>
  A Post document.  \<open>status\<close> is the schema's string field with default \<^verbatim>\<open>"unprocessed"\<close>;
  the \<open>contracts\<close> field of the schema (default \<open>[]\<close>, never written) is left out.
\<close>

record Post =
  tweetId :: "string option"
  p_username :: "string option"
  p_text :: "string option"
  p_timestamp :: date
  p_mediaUrl :: "string option"
  status :: string
  p_scrapedFor :: string
  p_createdAt :: nat

record EnrichedData =
  e_address :: string
  tokenSymbol :: "string option"
  priceUsd :: "jsnum option"
  fdv :: "rat option"
  liquidity :: "rat option"
  volume24h :: "rat option"
  e_blockchain :: "string option"

record TweetsIA =
  ia_tweetId :: "string option"
  ia_username :: "string option"
  ia_text :: "string option"
  ia_timestamp :: date
  ia_category :: string
  ia_tags :: "string list"
  ia_contracts :: "Contract list"
  enriched :: "EnrichedData list"
  ia_mediaUrl :: "string option"

datatype channel = General | Alerts

text \<open>
  The state of the process and of its document store.  \<open>posts\<close> and \<open>tweetsIA\<close> are the
  two collections in insertion order; \<open>discord\<close> lists the calls of \<^verbatim>\<open>sendToDiscord\<close> and
  \<open>errorChannel\<close> the addresses reported by \<^verbatim>\<open>sendErrorChannel\<close>; \<open>aiCalls\<close> lists the
  clock value at each call of the external classifier; \<open>clock\<close> is \<^verbatim>\<open>Date.now()\<close> in
  milliseconds and advances only by the waits and latencies written in the model;
  \<open>lastAICallTime\<close> is the global of worker.ts; \<open>users\<close> is the ordered list of tracked
  user names; \<open>scraperState\<close> is \<open>lastProcessedIndex\<close> of the \<^verbatim>\<open>user-sequencer\<close>
  document (\<open>None\<close> while the document does not exist); \<open>scanned\<close> lists the users passed
  to \<^verbatim>\<open>processUserAndMentions\<close>.
\<close>

record world =
  posts :: "Post list"
  tweetsIA :: "TweetsIA list"
  discord :: "(channel \<times> TweetsIA) list"
  errorChannel :: "string list"
  aiCalls :: "nat list"
  clock :: nat
  lastAICallTime :: nat
  users :: "string list"
  scraperState :: "int option"
  scanned :: "string list"

definition sleep :: "nat \<Rightarrow> world \<Rightarrow> world" where
  "sleep ms w = w\<lparr>clock := clock w + ms\<rparr>"

subsection \<open>classifyTweet\<close>

text \<open>The prompt template is abbreviated to its variable part.\<close>

definition aiPrompt :: "string \<Rightarrow> string" where
  "aiPrompt txt = ''Content for Analysis: '' @ txt"

definition notRelevant :: Analysis where
  "notRelevant = \<lparr>category = ''not-relevant'', tags = [], contracts = []\<rparr>"

definition classifyTweet :: "env \<Rightarrow> ClassificationInput \<Rightarrow> world \<Rightarrow> Analysis \<times> world" where
  "classifyTweet e i w =
     (case (if truthy (ci_mediaUrl i) \<and> truthy (ci_mimeType i)
            then (case urlToBase64 e (orEmpty (ci_mediaUrl i)) of
                    (imageBase64, ms) \<Rightarrow>
                      (if imageBase64 \<noteq> []
                       then [InlineData imageBase64 (orEmpty (ci_mimeType i))] else [],
                       sleep ms w))
            else ([], w)) of
        (imageParts, w1) \<Rightarrow>
          let contentParts = TextPart (aiPrompt (ci_text i)) # imageParts in
          if ci_text i = [] \<and> length contentParts = 1 then (notRelevant, w1)
          else (case generateContent e (length (aiCalls w1)) contentParts of
                  (outcome, ms) \<Rightarrow>
                    let w2 = sleep ms (w1\<lparr>aiCalls := aiCalls w1 @ [clock w1]\<rparr>) in
                    (case outcome of
                       AiText parsed \<Rightarrow> (parsed, w2)
                     | AiNoText \<Rightarrow> (notRelevant, w2)
                     | AiThrows st \<Rightarrow> (notRelevant, w2))))"

section \<open>The document store\<close>

text \<open>
  \<open>findOne\<close> is \<^verbatim>\<open>Post.findOne({ tweetId: k })\<close>.  \<open>savePost\<close> is \<^verbatim>\<open>post.save()\<close> of a new
  document: it throws (\<open>None\<close>) when a \<^verbatim>\<open>required\<close> field (tweetId, username, timestamp)
  is missing, empty or an invalid date, or when the \<^verbatim>\<open>unique\<close> index on tweetId
  rejects the key.  \<open>updateStatus\<close> is
  \<^verbatim>\<open>Post.findOneAndUpdate({ tweetId: k }, { status: s })\<close>: the first match is updated.
\<close>

definition validDate :: "env \<Rightarrow> date \<Rightarrow> bool" where
  "validDate e d = (case d of DateOfString s \<Rightarrow> validDateString e s | DateOfMillis n \<Rightarrow> True)"

definition findOne :: "Post list \<Rightarrow> string option \<Rightarrow> Post option" where
  "findOne ps k = List.find (\<lambda>p. tweetId p = k) ps"

definition validPost :: "env \<Rightarrow> Post \<Rightarrow> bool" where
  "validPost e p = (truthy (tweetId p) \<and> truthy (p_username p) \<and> validDate e (p_timestamp p))"

definition savePost :: "env \<Rightarrow> Post \<Rightarrow> Post list \<Rightarrow> Post list option" where
  "savePost e p ps =
     (if validPost e p \<and> findOne ps (tweetId p) = None then Some (ps @ [p]) else None)"

fun updateStatus :: "string option \<Rightarrow> string \<Rightarrow> Post list \<Rightarrow> Post list" where
  "updateStatus k s [] = []"
| "updateStatus k s (p # ps) =
     (if tweetId p = k then p\<lparr>status := s\<rparr> # ps else p # updateStatus k s ps)"

definition setStatus :: "string option \<Rightarrow> string \<Rightarrow> world \<Rightarrow> world" where
  "setStatus k s w = w\<lparr>posts := updateStatus k s (posts w)\<rparr>"

text \<open>
  \<^verbatim>\<open>tweetIA.save()\<close>: tweetId, username, text and timestamp are \<^verbatim>\<open>required\<close>, tweetId is
  \<^verbatim>\<open>unique\<close>.  The schema has no path \<^verbatim>\<open>mediaUrl\<close>, so the stored document is without
  that field of the DTO.
\<close>

definition validTweetsIA :: "env \<Rightarrow> TweetsIA \<Rightarrow> bool" where
  "validTweetsIA e d =
     (truthy (ia_tweetId d) \<and> truthy (ia_username d) \<and> truthy (ia_text d)
      \<and> validDate e (ia_timestamp d))"

definition saveTweetsIA :: "env \<Rightarrow> TweetsIA \<Rightarrow> TweetsIA list \<Rightarrow> TweetsIA list option" where
  "saveTweetsIA e d cs =
     (if validTweetsIA e d \<and> List.find (\<lambda>c. ia_tweetId c = ia_tweetId d) cs = None
      then Some (cs @ [d\<lparr>ia_mediaUrl := None\<rparr>]) else None)"

section \<open>worker.ts: helpers\<close>

definition AI_CALL_INTERVAL :: nat where
  "AI_CALL_INTERVAL = 6000"

definition AI_TIMEOUT_MS :: nat where
  "AI_TIMEOUT_MS = 15000"

text \<open>
  An awaited computation: it ends with a thrown error (\<open>Inl\<close>) or a value (\<open>Inr\<close>) and
  leaves a new state.  An error carries its \<^verbatim>\<open>status\<close> field, if it has one.
\<close>

datatype jsError = JsError "nat option"

fun errStatus :: "jsError \<Rightarrow> nat option" where
  "errStatus (JsError st) = st"

type_synonym 'a promise = "world \<Rightarrow> (jsError + 'a) \<times> world"

fun retryWithBackoff :: "'a promise \<Rightarrow> nat \<Rightarrow> nat \<Rightarrow> 'a promise" where
  "retryWithBackoff fn 0 delay w = fn w"
| "retryWithBackoff fn (Suc retries) delay w =
     (case fn w of
        (Inr v, w1) \<Rightarrow> (Inr v, w1)
      | (Inl err, w1) \<Rightarrow>
          if errStatus err = Some 503
          then retryWithBackoff fn retries (delay * 2) (sleep delay w1)
          else (Inl err, w1))"

text \<open>
  \<^verbatim>\<open>withTimeout(promise, ms, fallback)\<close>: the promise, which is started before the timer
  is set, wins the race when it settles within \<open>ms\<close> milliseconds; otherwise the caller
  resumes with \<open>fallback\<close> at \<open>ms\<close> while the promise keeps running (what it did to the
  state stays done).
\<close>

definition withTimeout :: "'a promise \<Rightarrow> nat \<Rightarrow> 'a \<Rightarrow> 'a promise" where
  "withTimeout promise ms fallback w =
     (case promise w of
        (r, w1) \<Rightarrow>
          if clock w1 - clock w \<le> ms then (r, w1)
          else (Inr fallback, w1\<lparr>clock := clock w + ms\<rparr>))"

definition errorAnalysis :: Analysis where
  "errorAnalysis = \<lparr>category = ''error'', tags = [], contracts = []\<rparr>"

text \<open>\<^verbatim>\<open>classifyTweet\<close> as an awaited call: the function has no path that throws.\<close>

definition classifyCall :: "env \<Rightarrow> string option \<Rightarrow> string option \<Rightarrow> Analysis promise" where
  "classifyCall e txt media w =
     (case classifyTweet e
             \<lparr>ci_text = orEmpty txt, ci_mediaUrl = media, ci_mimeType = Some ''image/jpeg''\<rparr> w of
        (analysis, w1) \<Rightarrow> (Inr analysis, w1))"

section \<open>utils/getDataDexScreener.ts\<close>

definition liquidityOr0 :: "DexScreenerPair option \<Rightarrow> rat" where
  "liquidityOr0 p =
     (case p of None \<Rightarrow> 0
      | Some q \<Rightarrow> (case pairLiquidityUsd q of None \<Rightarrow> 0 | Some v \<Rightarrow> v))"

definition bestOf :: "DexScreenerPair option \<Rightarrow> DexScreenerPair \<Rightarrow> DexScreenerPair option" where
  "bestOf best current =
     (if liquidityOr0 (Some current) > liquidityOr0 best then Some current else best)"

definition getTokenDataFromDexScreener ::
  "env \<Rightarrow> string \<Rightarrow> world \<Rightarrow> DexScreenerPair option \<times> world" where
  "getTokenDataFromDexScreener e addr w =
     (case dexScreener e addr of
        DexThrows \<Rightarrow> (None, w)
      | DexPairs pairs \<Rightarrow>
          if pairs = [] then (None, w\<lparr>errorChannel := errorChannel w @ [addr]\<rparr>)
          else (foldl bestOf None pairs, w))"

section \<open>worker.ts: the pipeline\<close>

text \<open>The enrichment loop over \<^verbatim>\<open>analysis.contracts\<close> (lines 130-150 and 466-486).\<close>

definition enrichedOf :: "env \<Rightarrow> Contract \<Rightarrow> DexScreenerPair \<Rightarrow> EnrichedData" where
  "enrichedOf e c tokenData =
     \<lparr>e_address = address c,
      tokenSymbol = Some (baseSymbol tokenData),
      priceUsd = (if truthy (pairPriceUsd tokenData)
                  then Some (parseFloat e (orEmpty (pairPriceUsd tokenData))) else None),
      fdv = pairFdv tokenData,
      liquidity = pairLiquidityUsd tokenData,
      volume24h = Some (pairVolumeH24 tokenData),
      e_blockchain = blockchain c\<rparr>"

fun enrichContracts :: "env \<Rightarrow> Contract list \<Rightarrow> world \<Rightarrow> EnrichedData list \<times> world" where
  "enrichContracts e [] w = ([], w)"
| "enrichContracts e (c # cs) w =
     (case getTokenDataFromDexScreener e (address c) w of
        (tokenData, w1) \<Rightarrow>
          (case enrichContracts e cs w1 of
             (rest, w2) \<Rightarrow>
               ((case tokenData of None \<Rightarrow> [] | Some td \<Rightarrow> [enrichedOf e c td]) @ rest, w2)))"

definition sendToDiscord :: "channel \<Rightarrow> TweetsIA \<Rightarrow> world \<Rightarrow> world" where
  "sendToDiscord ch tweet w = w\<lparr>discord := discord w @ [(ch, tweet)]\<rparr>"

text \<open>
  How a block of statements ends: it runs to its end (\<open>Normal\<close>) or executes
  \<^verbatim>\<open>return\<close> (\<open>Returned\<close>), which leaves the enclosing function.
\<close>

datatype flow = Normal | Returned

text \<open>The case labels of the switch that send to the alerts channel, in source order.\<close>

definition alertCategories :: "string list" where
  "alertCategories =
     [''Airdrop'', ''Launch Alerts'', ''Presale'', ''Contract Alert'', ''Listing'',
      ''Price Alert'', ''Scam Warning'', ''Giveaway'', ''Signals'', ''PnL Sharing'']"

text \<open>The switch over \<^verbatim>\<open>analysis.category\<close> (lines 167-201 and 503-537).\<close>

definition switchChannels :: "string option \<Rightarrow> TweetsIA \<Rightarrow> world \<Rightarrow> flow \<times> world" where
  "switchChannels key dto w =
     (if ia_category dto \<in> set alertCategories then (Normal, sendToDiscord Alerts dto w)
      else if ia_category dto = ''not-relevant''
           then (Returned, setStatus key ''discarded'' w)
      else (Normal, if ia_category dto \<noteq> ''not-relevant''
                    then sendToDiscord General dto w else w))"

text \<open>
  The inner \<^verbatim>\<open>try\<close> that saves the TweetsIA document and marks the post processed
  (lines 203-210 and 539-546); a failed save is caught and logged.
\<close>

definition saveAndMark :: "env \<Rightarrow> string option \<Rightarrow> TweetsIA \<Rightarrow> world \<Rightarrow> world" where
  "saveAndMark e key dto w =
     (case saveTweetsIA e dto (tweetsIA w) of
        None \<Rightarrow> w
      | Some cs \<Rightarrow> setStatus key ''processed'' (w\<lparr>tweetsIA := cs\<rparr>))"

text \<open>
  The body of \<^verbatim>\<open>if (analysis.category !== 'error')\<close>, which processTweet (lines 130-211)
  and retryFailedAI (lines 466-547) share word for word; \<open>key\<close> is the identifier used in
  the updates and \<open>base\<close> carries the fields of the DTO taken from the post (its
  timestamp is \<open>stamp\<close> applied to the clock).
\<close>

definition classifiedBranch ::
  "env \<Rightarrow> string option \<Rightarrow> TweetsIA \<Rightarrow> (nat \<Rightarrow> date) \<Rightarrow> Analysis \<Rightarrow> world \<Rightarrow> flow \<times> world" where
  "classifiedBranch e key base stamp analysis w =
     (case enrichContracts e (contracts analysis) w of
        (enrichedDataArray, w1) \<Rightarrow>
          if category analysis = ''not-relevant''
          then (Returned, setStatus key ''discarded'' w1)
          else
            let dtoTweetIA = base\<lparr>ia_timestamp := stamp (clock w1),
                                  ia_category := category analysis,
                                  ia_tags := tags analysis,
                                  ia_contracts := contracts analysis,
                                  enriched := enrichedDataArray\<rparr> in
            (case switchChannels key dtoTweetIA w1 of
               (Returned, w2) \<Rightarrow> (Returned, w2)
             | (Normal, w2) \<Rightarrow> (Normal, saveAndMark e key dtoTweetIA w2)))"

definition newDate :: "string option \<Rightarrow> nat \<Rightarrow> date" where
  "newDate ts now = (if truthy ts then DateOfString (orEmpty ts) else DateOfMillis now)"

definition baseDto ::
  "string option \<Rightarrow> string option \<Rightarrow> string option \<Rightarrow> string option \<Rightarrow> TweetsIA" where
  "baseDto ident name txt media =
     \<lparr>ia_tweetId = ident, ia_username = name, ia_text = txt, ia_timestamp = DateOfMillis 0,
      ia_category = [], ia_tags = [], ia_contracts = [], enriched = [], ia_mediaUrl = media\<rparr>"

definition newPost :: "Tweet \<Rightarrow> nat \<Rightarrow> Post" where
  "newPost t now =
     \<lparr>tweetId = t_url t, p_username = t_username t, p_text = t_text t,
      p_timestamp = newDate (t_timestamp t) now, p_mediaUrl = t_mediaUrl t,
      status = ''unprocessed'',
      p_scrapedFor = (case t_scrapedFor t of None \<Rightarrow> ''feed'' | Some s \<Rightarrow> s),
      p_createdAt = now\<rparr>"

text \<open>Lines 105-111: wait until the interval since the last call has passed.\<close>

definition rateGate :: "world \<Rightarrow> world" where
  "rateGate w =
     (let now = clock w;
          timeToWait = nat (max 0 (int (lastAICallTime w) + int AI_CALL_INTERVAL - int now));
          w1 = (if timeToWait > 0 then sleep timeToWait w else w)
      in w1\<lparr>lastAICallTime := clock w1\<rparr>)"

text \<open>
  Lines 105-215, after the post has been saved.  \<^verbatim>\<open>aiLimiter\<close> (\<^verbatim>\<open>pLimit(1)\<close>) runs
  its argument at once when no other call is pending, which is the case in a
  sequential run.  An error thrown by the awaited call is caught by the outer
  \<^verbatim>\<open>try\<close> and logged.
\<close>

definition classifyAndBranch :: "env \<Rightarrow> Tweet \<Rightarrow> Post \<Rightarrow> world \<Rightarrow> world" where
  "classifyAndBranch e t post w =
     (case withTimeout (retryWithBackoff (classifyCall e (p_text post) (p_mediaUrl post)) 3 2000)
             20000 errorAnalysis (rateGate w) of
        (Inl err, w1) \<Rightarrow> w1
      | (Inr analysis, w1) \<Rightarrow>
          if category analysis \<noteq> ''error''
          then snd (classifiedBranch e (t_url t)
                      (baseDto (t_url t) (t_username t) (t_text t) (t_mediaUrl t))
                      (newDate (t_timestamp t)) analysis w1)
          else if category analysis = ''error''
               then setStatus (t_url t) ''unprocessed'' w1
          else w1)"

definition processTweet :: "env \<Rightarrow> Tweet \<Rightarrow> world \<Rightarrow> world" where
  "processTweet e t w =
     (case findOne (posts w) (t_url t) of
        Some exists \<Rightarrow> w
      | None \<Rightarrow>
          let post = newPost t (clock w) in
          (case savePost e post (posts w) of
             None \<Rightarrow> w
           | Some ps \<Rightarrow> classifyAndBranch e t post (w\<lparr>posts := ps\<rparr>)))"

section \<open>worker.ts: the recovery sweep and the deep scan\<close>

text \<open>
  The body of the \<^verbatim>\<open>for\<close> loop of retryFailedAI (lines 453-551) for one fetched post.
  The call is neither rate-gated nor limited.  \<open>Returned\<close> is the \<^verbatim>\<open>return\<close> of lines
  489 and 520, which leaves retryFailedAI.
\<close>

definition retryOne :: "env \<Rightarrow> Post \<Rightarrow> world \<Rightarrow> flow \<times> world" where
  "retryOne e t w =
     (case withTimeout (classifyCall e (p_text t) (p_mediaUrl t)) AI_TIMEOUT_MS errorAnalysis w of
        (Inl err, w1) \<Rightarrow> (Normal, w1)
      | (Inr analysis, w1) \<Rightarrow>
          if category analysis \<noteq> ''error''
          then classifiedBranch e (tweetId t)
                 (baseDto (tweetId t) (p_username t) (p_text t) (p_mediaUrl t))
                 (\<lambda>now. p_timestamp t) analysis w1
          else (Normal, w1))"

fun retryLoop :: "env \<Rightarrow> Post list \<Rightarrow> world \<Rightarrow> world" where
  "retryLoop e [] w = w"
| "retryLoop e (t # ts) w =
     (case retryOne e t w of
        (Returned, w1) \<Rightarrow> w1
      | (Normal, w1) \<Rightarrow> retryLoop e ts w1)"

text \<open>\<^verbatim>\<open>Post.find({ status: "unprocessed" }).limit(limit)\<close>.\<close>

definition pendingPosts :: "nat \<Rightarrow> world \<Rightarrow> Post list" where
  "pendingPosts limit w = take limit (filter (\<lambda>p. status p = ''unprocessed'') (posts w))"

definition retryFailedAI :: "env \<Rightarrow> nat \<Rightarrow> world \<Rightarrow> world" where
  "retryFailedAI e limit w = retryLoop e (pendingPosts limit w) w"

text \<open>The two \<^verbatim>\<open>for\<close> loops of processUserAndMentions, tagging each post with its source.\<close>

fun processAll :: "env \<Rightarrow> string \<Rightarrow> Tweet list \<Rightarrow> world \<Rightarrow> world" where
  "processAll e src [] w = w"
| "processAll e src (t # ts) w =
     processAll e src ts (processTweet e (t\<lparr>t_scrapedFor := Some src\<rparr>) w)"

text \<open>
  processUserAndMentions.  Errors of the scan are caught and logged inside: when
  \<^verbatim>\<open>browser.newPage()\<close> throws, \<^verbatim>\<open>page\<close> stays \<^verbatim>\<open>null\<close> and the \<^verbatim>\<open>finally\<close> block closes
  nothing; when \<^verbatim>\<open>page.setViewport\<close> throws, the scrapes are skipped and the page is
  closed.  The result \<open>Inl\<close> is the error that \<^verbatim>\<open>page.close()\<close> throws out of the
  \<^verbatim>\<open>finally\<close> block.  The sweep, started there without \<^verbatim>\<open>await\<close>, is run at the place of
  its call.
\<close>

definition processUserAndMentions :: "env \<Rightarrow> string \<Rightarrow> unit promise" where
  "processUserAndMentions e user w =
     (let n = length (scanned w);
          w0 = w\<lparr>scanned := scanned w @ [user]\<rparr> in
      if \<not> newPage e n then (Inr (), retryFailedAI e 5 w0)
      else
        let w1 = (if \<not> setViewport e n then w0
                  else (case scrapeUserTweets e n user of
                          None \<Rightarrow> w0
                        | Some userTweets \<Rightarrow> processAll e ''profile'' userTweets w0));
            w2 = (if \<not> setViewport e n then w1
                  else (case scrapeMentions e n user of
                          None \<Rightarrow> w1
                        | Some userMentions \<Rightarrow> processAll e ''mention'' userMentions w1));
            w3 = retryFailedAI e 5 w2 in
        if pageClose e n then (Inr (), w3) else (Inl (JsError None), w3))"

section \<open>index.ts: the cron job\<close>

text \<open>\<^verbatim>\<open>allUsers[nextIndex]\<close>: \<^verbatim>\<open>undefined\<close> outside the array.\<close>

definition userAt :: "string list \<Rightarrow> int \<Rightarrow> string option" where
  "userAt allUsers i =
     (if 0 \<le> i \<and> i < int (length allUsers) then Some (allUsers ! nat i) else None)"

text \<open>
  One run of the callback of \<^verbatim>\<open>cron.schedule\<close> (lines 57-94).  The callback is
  registered only in the branch where \<^verbatim>\<open>browserInstance\<close> is a browser, and nothing
  assigns the variable afterwards, so the test of line 79 holds.
\<close>

definition cronTick :: "env \<Rightarrow> world \<Rightarrow> world" where
  "cronTick e w =
     (let allUsers = users w in
      if length allUsers = 0 then w
      else
        let nextIndex = (case scraperState w of None \<Rightarrow> 0 | Some i \<Rightarrow> i);
            w1 = w\<lparr>scraperState := Some nextIndex\<rparr> in
        (case userAt allUsers nextIndex of
           Some userToProcess \<Rightarrow>
             (case processUserAndMentions e userToProcess w1 of
                (Inl err, w2) \<Rightarrow> w2
              | (Inr u, w2) \<Rightarrow>
                  w2\<lparr>scraperState := Some ((nextIndex + 1) mod int (length allUsers))\<rparr>)
         | None \<Rightarrow> w1\<lparr>scraperState := Some 0\<rparr>))"

fun ticks :: "env \<Rightarrow> nat \<Rightarrow> world \<Rightarrow> world" where
  "ticks e 0 w = w"
| "ticks e (Suc k) w = cronTick e (ticks e k w)"

section \<open>worker.ts: the session manager\<close>

record Credentials =
  auth_token :: string
  ct0 :: string
  bearer_token :: string

text \<open>The result of checkAndInjectCredentials: \<^verbatim>\<open>true\<close>, \<^verbatim>\<open>false\<close> or \<^verbatim>\<open>'premium'\<close>.\<close>

datatype sessionCheck = IsTrue | IsFalse | IsPremium

text \<open>
  What the browser does during one check: \<open>probeThrows\<close> when a step up to and
  including the two \<^verbatim>\<open>page.$\<close> queries throws; \<open>loggedOut\<close> and \<open>subscribeButton\<close> say
  whether the queries found their element; \<open>browserCloseThrows\<close> when the
  \<^verbatim>\<open>browser.close()\<close> of the premium branch throws; \<open>teardownThrows\<close> when a step after
  the premium test (scrolling, \<^verbatim>\<open>page.close()\<close>, \<^verbatim>\<open>setRequestInterception(false)\<close>) throws.
\<close>

record homeCheck =
  probeThrows :: bool
  loggedOut :: bool
  subscribeButton :: bool
  browserCloseThrows :: bool
  teardownThrows :: bool

definition checkAndInjectCredentials :: "homeCheck \<Rightarrow> Credentials option \<Rightarrow> sessionCheck" where
  "checkAndInjectCredentials h credentials =
     (case credentials of
        None \<Rightarrow> IsFalse
      | Some c \<Rightarrow>
          if probeThrows h then IsFalse
          else if subscribeButton h
               then (if browserCloseThrows h then IsFalse else IsPremium)
          else if teardownThrows h then IsFalse
          else if loggedOut h then IsFalse
          else IsTrue)"

text \<open>
  The collaborators of setupPersistentBrowser: the result of \<^verbatim>\<open>readCredentials\<close> (it
  catches its own errors and returns \<^verbatim>\<open>null\<close>), whether \<^verbatim>\<open>setupBrowser\<close> launches,
  the check above, whether \<^verbatim>\<open>browserInstance.close()\<close> throws, and the credentials
  \<^verbatim>\<open>handleLogin\<close> returns (\<open>None\<close> when it throws).
\<close>

record browserEnv =
  readCredentials :: "Credentials option"
  setupBrowser :: bool
  home :: homeCheck
  closeThrows :: bool
  handleLogin :: "Credentials option"

text \<open>
  The globals of worker.ts; \<open>browserInstance\<close> says whether a browser is held, and
  \<open>logins\<close> counts the calls of \<^verbatim>\<open>handleLogin\<close>.
\<close>

record manager =
  isLoggingIn :: bool
  browserInstance :: bool
  currentCredentials :: "Credentials option"
  logins :: nat

text \<open>A browser, \<^verbatim>\<open>'premium'\<close>, \<^verbatim>\<open>null\<close>, or the error thrown by the \<^verbatim>\<open>catch\<close> block.\<close>

datatype setupResult = GotBrowser | GotPremium | GotNull | SetupFailed

definition setupFailed :: "browserEnv \<Rightarrow> manager \<Rightarrow> setupResult \<times> manager" where
  "setupFailed b m =
     (SetupFailed,
      if browserInstance m \<and> closeThrows b then m\<lparr>isLoggingIn := False\<rparr>
      else m\<lparr>browserInstance := False, currentCredentials := None, isLoggingIn := False\<rparr>)"

definition setupPersistentBrowser :: "browserEnv \<Rightarrow> manager \<Rightarrow> setupResult \<times> manager" where
  "setupPersistentBrowser b m =
     (if isLoggingIn m then (GotNull, m)
      else
        let m1 = m\<lparr>isLoggingIn := True,
                   currentCredentials :=
                     (case readCredentials b of
                        None \<Rightarrow> None
                      | Some c \<Rightarrow> if auth_token c = [] then None else Some c)\<rparr> in
        if \<not> browserInstance m1 \<and> \<not> setupBrowser b then setupFailed b m1
        else
          let m2 = m1\<lparr>browserInstance := True\<rparr> in
          (case checkAndInjectCredentials (home b) (currentCredentials m2) of
             IsFalse \<Rightarrow>
               if closeThrows b then setupFailed b m2
               else if \<not> setupBrowser b then setupFailed b m2
               else
                 let m3 = m2\<lparr>logins := logins m2 + 1\<rparr> in
                 (case handleLogin b of
                    None \<Rightarrow> setupFailed b m3
                  | Some c \<Rightarrow> (GotBrowser, m3\<lparr>currentCredentials := Some c, isLoggingIn := False\<rparr>))
           | IsPremium \<Rightarrow> (GotPremium, m2\<lparr>isLoggingIn := False\<rparr>)
           | IsTrue \<Rightarrow> (GotBrowser, m2\<lparr>isLoggingIn := False\<rparr>)))"

section \<open>services/discordService.ts: the token data of an embed\<close>

text \<open>
  A finite JavaScript number is its exact rational value.  \<open>toFixed f x\<close> is
  \<^verbatim>\<open>x.toFixed(f)\<close> for \<open>\<bar>x\<bar> < 10^21\<close>: the integer nearest to \<open>x * 10^f\<close> (the larger one
  of two), written with \<open>f\<close> digits after the point.
\<close>

definition digitChar :: "nat \<Rightarrow> char" where
  "digitChar d = ''0123456789'' ! d"

fun showNat :: "nat \<Rightarrow> string" where
  "showNat n = (if n < 10 then [digitChar n] else showNat (n div 10) @ [digitChar (n mod 10)])"

declare showNat.simps [simp del]

definition padStart :: "nat \<Rightarrow> string \<Rightarrow> string" where
  "padStart f s = replicate (f - length s) (CHR ''0'') @ s"

definition toFixed :: "nat \<Rightarrow> rat \<Rightarrow> string" where
  "toFixed f x =
     (let n = nat \<lfloor>\<bar>x\<bar> * 10 ^ f + 1 / 2\<rfloor>;
          m = showNat (n div 10 ^ f) @ (if f = 0 then [] else ''.'' @ padStart f (showNat (n mod 10 ^ f)))
      in if x < 0 then ''-'' @ m else m)"

text \<open>
  \<^verbatim>\<open>v || d\<close> for an optional number and for a string, and \<^verbatim>\<open>toLowerCase\<close> on the letters
  A to Z (a chain name is written in ASCII).
\<close>

definition numOr :: "rat option \<Rightarrow> rat \<Rightarrow> rat" where
  "numOr v d = (case v of None \<Rightarrow> d | Some x \<Rightarrow> if x = 0 then d else x)"

definition strOr :: "string \<Rightarrow> string \<Rightarrow> string" where
  "strOr s d = (if s = [] then d else s)"

definition toLowerCase :: "string \<Rightarrow> string" where
  "toLowerCase s =
     map (\<lambda>c. if 65 \<le> (of_char c :: nat) \<and> (of_char c :: nat) \<le> 90
               then char_of ((of_char c :: nat) + 32) else c) s"

definition bullet :: string where
  "bullet = [CHR 0xE2, CHR 0x80, CHR 0xA2]"

definition newline :: string where
  "newline = [CHR 0x0A]"

definition priceFigure :: "EnrichedData \<Rightarrow> string" where
  "priceFigure d =
     (case priceUsd d of
        None \<Rightarrow> ''N/A''
      | Some n \<Rightarrow> strOr (case n of Num x \<Rightarrow> toFixed 8 x | NaN \<Rightarrow> ''NaN'') ''N/A'')"

definition liquidityFigure :: "EnrichedData \<Rightarrow> string" where
  "liquidityFigure d = strOr (toFixed 2 (numOr (liquidity d) (0 / 1000000))) ''N/A''"

definition volumeFigure :: "EnrichedData \<Rightarrow> string" where
  "volumeFigure d = strOr (toFixed 2 (numOr (volume24h d) (0 / 1000000))) ''N/A''"

definition fdvFigure :: "EnrichedData \<Rightarrow> string" where
  "fdvFigure d = strOr (toFixed 2 (numOr (fdv d) (0 / 1000000))) ''N/A''"

definition dexscreenerUrl :: "EnrichedData \<Rightarrow> string" where
  "dexscreenerUrl d =
     ''https://dexscreener.com/''
     @ (case e_blockchain d of None \<Rightarrow> ''undefined'' | Some b \<Rightarrow> toLowerCase b)
     @ ''/'' @ e_address d"

text \<open>The template string \<^verbatim>\<open>enrichedValue\<close> of createDiscordEmbed (lines 848-853).\<close>

definition enrichedValue :: "EnrichedData \<Rightarrow> string" where
  "enrichedValue d =
     bullet @ '' **Price USD:** $'' @ priceFigure d @ newline
     @ bullet @ '' **Liquidity:** $'' @ liquidityFigure d @ ''M'' @ newline
     @ bullet @ '' **Volume (24h):** $'' @ volumeFigure d @ ''M'' @ newline
     @ bullet @ '' **FDV:** $'' @ fdvFigure d @ ''M'' @ newline
     @ newline @ ''[View on DexScreener]('' @ dexscreenerUrl d @ '')''"

section \<open>Notions used in the statements\<close>

text \<open>
  The unique indexes of the two collections, the status stored for an identifier, and
  the part of the state that a call of the classifier leaves alone.
\<close>

definition uniqueIds :: "Post list \<Rightarrow> bool" where
  "uniqueIds ps = distinct (map tweetId ps)"

definition uniqueIA :: "TweetsIA list \<Rightarrow> bool" where
  "uniqueIA cs = distinct (map ia_tweetId cs)"

definition statusOf :: "world \<Rightarrow> string option \<Rightarrow> string option" where
  "statusOf w k = map_option status (findOne (posts w) k)"

definition storeOf ::
  "world \<Rightarrow> Post list \<times> TweetsIA list \<times> (channel \<times> TweetsIA) list \<times> string list
            \<times> nat \<times> string list \<times> int option \<times> string list" where
  "storeOf w =
     (posts w, tweetsIA w, discord w, errorChannel w, lastAICallTime w, users w,
      scraperState w, scanned w)"

text \<open>
  The routing as the specification words it: the alerts channel for the ten
  high-priority categories, the general channel for every other category.  A
  notification is routed right when its category is neither \<open>error\<close> nor \<open>not-relevant\<close>
  and its channel is the specified one.
\<close>

definition specChannel :: "string \<Rightarrow> channel" where
  "specChannel c =
     (if c \<in> {''Airdrop'', ''Launch Alerts'', ''Presale'', ''Contract Alert'', ''Listing'',
               ''Price Alert'', ''Scam Warning'', ''Giveaway'', ''Signals'', ''PnL Sharing''}
      then Alerts else General)"

definition routedRight :: "channel \<times> TweetsIA \<Rightarrow> bool" where
  "routedRight n =
     (ia_category (snd n) \<noteq> ''error'' \<and> ia_category (snd n) \<noteq> ''not-relevant''
      \<and> fst n = specChannel (ia_category (snd n)))"

text \<open>The time the image download of classifyTweet takes (none without a media URL).\<close>

definition downloadTime :: "env \<Rightarrow> string option \<Rightarrow> nat" where
  "downloadTime e media = (if truthy media then snd (urlToBase64 e (orEmpty media)) else 0)"

text \<open>The status changes the specification allows for a stored post.\<close>

definition transitionOK :: "string \<Rightarrow> string \<Rightarrow> bool" where
  "transitionOK s s' =
     (s' = s \<or> (s = ''unprocessed'' \<and> (s' = ''processed'' \<or> s' = ''discarded'')))"

text \<open>
  The cursor that the next run of the cron job reads (0 when the document is created
  then), and the users visited by the first \<open>k\<close> runs from a state.
\<close>

definition cursorOf :: "world \<Rightarrow> int" where
  "cursorOf w = (case scraperState w of None \<Rightarrow> 0 | Some i \<Rightarrow> i)"

definition visited :: "env \<Rightarrow> nat \<Rightarrow> world \<Rightarrow> string list" where
  "visited e k w = drop (length (scanned w)) (scanned (ticks e k w))"

section \<open>Concrete inputs\<close>

text \<open>
  A store without documents, the candidate of the end-to-end scenarios, and
  collaborators that answer every classifier call with the same outcome after the same
  latency, find no market data and let every browser step succeed.
\<close>

definition world0 :: world where
  "world0 =
     \<lparr>posts = [], tweetsIA = [], discord = [], errorChannel = [], aiCalls = [], clock = 0,
      lastAICallTime = 0, users = [''solana'', ''pumpdotfun'', ''DexScreener''],
      scraperState = None, scanned = []\<rparr>"

definition tweet1 :: Tweet where
  "tweet1 =
     \<lparr>t_username = Some ''user'', t_text = Some ''check CA'',
      t_url = Some ''/user/status/1'', t_timestamp = Some ''2025-01-01T00:00:00Z'',
      t_mediaUrl = None, t_scrapedFor = None\<rparr>"

definition envWith :: "aiOutcome \<Rightarrow> nat \<Rightarrow> env" where
  "envWith out ms =
     \<lparr>generateContent = (\<lambda>n parts. (out, ms)),
      urlToBase64 = (\<lambda>u. ([], 0)),
      dexScreener = (\<lambda>a. DexPairs []),
      parseFloat = (\<lambda>s. NaN),
      validDateString = (\<lambda>s. True),
      newPage = (\<lambda>n. True),
      setViewport = (\<lambda>n. True),
      scrapeUserTweets = (\<lambda>n u. Some []),
      scrapeMentions = (\<lambda>n u. Some []),
      pageClose = (\<lambda>n. True)\<rparr>"

definition analysisOf :: "string \<Rightarrow> Analysis" where
  "analysisOf c = \<lparr>category = c, tags = [], contracts = []\<rparr>"

text \<open>
  A session that the platform answers with the subscribe link while the
  \<^verbatim>\<open>browser.close()\<close> of the premium branch throws, and an enriched contract with two and
  a half million dollars of liquidity.
\<close>

definition creds1 :: Credentials where
  "creds1 = \<lparr>auth_token = ''a1'', ct0 = ''c1'', bearer_token = ''b1''\<rparr>"

definition premiumCloseFails :: browserEnv where
  "premiumCloseFails =
     \<lparr>readCredentials = Some creds1, setupBrowser = True,
      home = \<lparr>probeThrows = False, loggedOut = False, subscribeButton = True,
              browserCloseThrows = True, teardownThrows = False\<rparr>,
      closeThrows = False, handleLogin = Some creds1\<rparr>"

definition manager0 :: manager where
  "manager0 =
     \<lparr>isLoggingIn = False, browserInstance = False, currentCredentials = None, logins = 0\<rparr>"

definition enriched1 :: EnrichedData where
  "enriched1 =
     \<lparr>e_address = ''7xKXtg'', tokenSymbol = Some ''PUMP'', priceUsd = None, fdv = None,
      liquidity = Some 2500000, volume24h = Some 0, e_blockchain = Some ''solana''\<rparr>"

text \<open>
  A store with two posts left unprocessed, and collaborators whose classifier answers
  its calls from a list, in order.
\<close>

definition post1 :: Post where
  "post1 =
     \<lparr>tweetId = Some ''/user/status/1'', p_username = Some ''user'', p_text = Some ''first'',
      p_timestamp = DateOfMillis 0, p_mediaUrl = None, status = ''unprocessed'',
      p_scrapedFor = ''feed'', p_createdAt = 0\<rparr>"

definition post2 :: Post where
  "post2 =
     \<lparr>tweetId = Some ''/user/status/2'', p_username = Some ''user'', p_text = Some ''second'',
      p_timestamp = DateOfMillis 0, p_mediaUrl = None, status = ''unprocessed'',
      p_scrapedFor = ''feed'', p_createdAt = 0\<rparr>"

definition world2 :: world where
  "world2 = world0\<lparr>posts := [post1, post2]\<rparr>"

definition envSeq :: "(aiOutcome \<times> nat) list \<Rightarrow> env" where
  "envSeq replies =
     (envWith AiNoText 0)
       \<lparr>generateContent := (\<lambda>n parts. if n < length replies then replies ! n else (AiNoText, 0))\<rparr>"

text \<open>
  The state in which processTweet, called on the empty store, has saved its post and
  waits for its turn to call the classifier; and a classifier that answers its first call with News after
  100 ms and its second call only after 25 seconds.
\<close>

definition inFlight :: world where
  "inFlight = world0\<lparr>posts := [newPost tweet1 0]\<rparr>"

definition raceEnv :: env where
  "raceEnv = envSeq [(AiText (analysisOf ''News''), 100), (AiText (analysisOf ''News''), 25000)]"

definition sweepEnv :: env where
  "sweepEnv =
     envSeq [(AiText (analysisOf ''not-relevant''), 100), (AiText (analysisOf ''Airdrop''), 100)]"

text \<open>Collaborators for which closing the page of the first deep scan throws.\<close>

definition closeFailsEnv :: env where
  "closeFailsEnv = (envWith AiNoText 0)\<lparr>pageClose := (\<lambda>n. 0 < n)\<rparr>"

section \<open>Properties\<close>

subsection \<open>Frame lemmas\<close>

lemma updateStatus_ids: "map tweetId (updateStatus k s ps) = map tweetId ps"
  by (induction ps) auto

lemma classifyTweet_store: "storeOf (snd (classifyTweet e i w)) = storeOf w"
  by (simp add: classifyTweet_def storeOf_def sleep_def Let_def split: prod.splits aiOutcome.splits)

lemma classifyCall_eq:
  "classifyCall e txt media w =
     (Inr (fst (classifyTweet e \<lparr>ci_text = orEmpty txt, ci_mediaUrl = media, ci_mimeType = Some ''image/jpeg''\<rparr> w)),
      snd (classifyTweet e \<lparr>ci_text = orEmpty txt, ci_mediaUrl = media, ci_mimeType = Some ''image/jpeg''\<rparr> w))"
  by (simp add: classifyCall_def split: prod.splits)

lemma retry_classifyCall:
  "retryWithBackoff (classifyCall e txt media) r d w = classifyCall e txt media w"
  by (cases r) (simp_all add: classifyCall_eq)

lemma withTimeout_classifyCall:
  "\<exists>a w1. withTimeout (classifyCall e txt media) ms fb w = (Inr a, w1) \<and> storeOf w1 = storeOf w"
  using classifyTweet_store[of e _ w]
  by (auto simp add: withTimeout_def classifyCall_eq storeOf_def)

lemma getTokenData_fields:
  "posts (snd (getTokenDataFromDexScreener e a w)) = posts w
   \<and> tweetsIA (snd (getTokenDataFromDexScreener e a w)) = tweetsIA w
   \<and> discord (snd (getTokenDataFromDexScreener e a w)) = discord w
   \<and> aiCalls (snd (getTokenDataFromDexScreener e a w)) = aiCalls w
   \<and> clock (snd (getTokenDataFromDexScreener e a w)) = clock w
   \<and> lastAICallTime (snd (getTokenDataFromDexScreener e a w)) = lastAICallTime w
   \<and> users (snd (getTokenDataFromDexScreener e a w)) = users w
   \<and> scraperState (snd (getTokenDataFromDexScreener e a w)) = scraperState w
   \<and> scanned (snd (getTokenDataFromDexScreener e a w)) = scanned w"
  by (simp add: getTokenDataFromDexScreener_def split: dexResponse.splits)

lemma enrich_fields:
  "posts (snd (enrichContracts e cs w)) = posts w
   \<and> tweetsIA (snd (enrichContracts e cs w)) = tweetsIA w
   \<and> discord (snd (enrichContracts e cs w)) = discord w
   \<and> aiCalls (snd (enrichContracts e cs w)) = aiCalls w
   \<and> clock (snd (enrichContracts e cs w)) = clock w
   \<and> lastAICallTime (snd (enrichContracts e cs w)) = lastAICallTime w
   \<and> users (snd (enrichContracts e cs w)) = users w
   \<and> scraperState (snd (enrichContracts e cs w)) = scraperState w
   \<and> scanned (snd (enrichContracts e cs w)) = scanned w"
proof (induction cs arbitrary: w)
  case Nil
  show ?case by simp
next
  case (Cons c cs)
  obtain td w1 where g: "getTokenDataFromDexScreener e (address c) w = (td, w1)"
    by (cases "getTokenDataFromDexScreener e (address c) w")
  have s: "snd (enrichContracts e (c # cs) w) = snd (enrichContracts e cs w1)"
    using g by (simp split: prod.splits)
  show ?case
    unfolding s using Cons.IH[of w1] getTokenData_fields[of e "address c" w] g by simp
qed

lemma switch_ids:
  "map tweetId (posts (snd (switchChannels key dto w))) = map tweetId (posts w)"
  by (simp add: switchChannels_def setStatus_def sendToDiscord_def updateStatus_ids)

lemma switch_ia: "tweetsIA (snd (switchChannels key dto w)) = tweetsIA w"
  by (simp add: switchChannels_def setStatus_def sendToDiscord_def)

lemma saveAndMark_ids:
  "map tweetId (posts (saveAndMark e key dto w)) = map tweetId (posts w)"
  by (simp add: saveAndMark_def setStatus_def updateStatus_ids split: option.splits)

lemma find_None_notin: "List.find (\<lambda>c. f c = k) cs = None \<Longrightarrow> k \<notin> set (map f cs)"
  by (auto simp add: find_None_iff)

lemma saveAndMark_unique:
  "uniqueIA (tweetsIA w) \<Longrightarrow> uniqueIA (tweetsIA (saveAndMark e key dto w))"
  by (auto simp add: saveAndMark_def saveTweetsIA_def setStatus_def uniqueIA_def find_None_iff
      split: option.splits if_splits)

lemma branch_ids:
  "map tweetId (posts (snd (classifiedBranch e key base stamp a w))) = map tweetId (posts w)"
proof -
  obtain en w1 where en: "enrichContracts e (contracts a) w = (en, w1)"
    by (cases "enrichContracts e (contracts a) w")
  from enrich_fields[of e "contracts a" w] en have p: "posts w1 = posts w" by simp
  show ?thesis
  proof (cases "category a = ''not-relevant''")
    case True
    then show ?thesis using en p
      by (simp add: classifiedBranch_def setStatus_def updateStatus_ids)
  next
    case False
    define dto where "dto = base\<lparr>ia_timestamp := stamp (clock w1), ia_category := category a,
        ia_tags := tags a, ia_contracts := contracts a, enriched := en\<rparr>"
    obtain f w2 where sw: "switchChannels key dto w1 = (f, w2)"
      by (cases "switchChannels key dto w1")
    have p2: "map tweetId (posts w2) = map tweetId (posts w)"
      using switch_ids[of key dto w1] sw p by simp
    show ?thesis using en False sw p2
      by (cases f) (simp_all add: classifiedBranch_def Let_def dto_def saveAndMark_ids)
  qed
qed

lemma branch_unique:
  assumes "uniqueIA (tweetsIA w)"
  shows "uniqueIA (tweetsIA (snd (classifiedBranch e key base stamp a w)))"
proof -
  obtain en w1 where en: "enrichContracts e (contracts a) w = (en, w1)"
    by (cases "enrichContracts e (contracts a) w")
  from enrich_fields[of e "contracts a" w] en have p: "tweetsIA w1 = tweetsIA w" by simp
  show ?thesis
  proof (cases "category a = ''not-relevant''")
    case True
    then show ?thesis using en p assms
      by (simp add: classifiedBranch_def setStatus_def)
  next
    case False
    define dto where "dto = base\<lparr>ia_timestamp := stamp (clock w1), ia_category := category a,
        ia_tags := tags a, ia_contracts := contracts a, enriched := en\<rparr>"
    obtain f w2 where sw: "switchChannels key dto w1 = (f, w2)"
      by (cases "switchChannels key dto w1")
    have p2: "uniqueIA (tweetsIA w2)"
      using switch_ia[of key dto w1] sw p assms by simp
    show ?thesis using en False sw p2
      by (cases f) (simp_all add: classifiedBranch_def Let_def dto_def saveAndMark_unique)
  qed
qed

lemma rateGate_fields:
  "posts (rateGate w) = posts w \<and> tweetsIA (rateGate w) = tweetsIA w
   \<and> discord (rateGate w) = discord w \<and> errorChannel (rateGate w) = errorChannel w
   \<and> aiCalls (rateGate w) = aiCalls w \<and> users (rateGate w) = users w
   \<and> scraperState (rateGate w) = scraperState w \<and> scanned (rateGate w) = scanned w"
  by (simp add: rateGate_def Let_def sleep_def)

lemma retry_classifyCall_fun:
  "retryWithBackoff (classifyCall e txt media) r d = classifyCall e txt media"
  by (rule ext) (rule retry_classifyCall)

lemma classifyAndBranch_cases:
  "\<exists>a w1. storeOf w1 = storeOf (rateGate w)
     \<and> classifyAndBranch e t post w =
         (if category a \<noteq> ''error''
          then snd (classifiedBranch e (t_url t)
                      (baseDto (t_url t) (t_username t) (t_text t) (t_mediaUrl t))
                      (newDate (t_timestamp t)) a w1)
          else setStatus (t_url t) ''unprocessed'' w1)"
proof -
  obtain a w1 where
    r: "withTimeout (classifyCall e (p_text post) (p_mediaUrl post)) 20000 errorAnalysis (rateGate w)
          = (Inr a, w1)"
    and st: "storeOf w1 = storeOf (rateGate w)"
    using withTimeout_classifyCall by blast
  have "classifyAndBranch e t post w =
         (if category a \<noteq> ''error''
          then snd (classifiedBranch e (t_url t)
                      (baseDto (t_url t) (t_username t) (t_text t) (t_mediaUrl t))
                      (newDate (t_timestamp t)) a w1)
          else setStatus (t_url t) ''unprocessed'' w1)"
    by (simp add: classifyAndBranch_def retry_classifyCall_fun r)
  with st show ?thesis by blast
qed

lemma classifyAndBranch_ids:
  "map tweetId (posts (classifyAndBranch e t post w)) = map tweetId (posts w)"
proof -
  obtain a w1 where st: "storeOf w1 = storeOf (rateGate w)"
    and eq: "classifyAndBranch e t post w =
         (if category a \<noteq> ''error''
          then snd (classifiedBranch e (t_url t)
                      (baseDto (t_url t) (t_username t) (t_text t) (t_mediaUrl t))
                      (newDate (t_timestamp t)) a w1)
          else setStatus (t_url t) ''unprocessed'' w1)"
    using classifyAndBranch_cases by blast
  have "posts w1 = posts w" using st rateGate_fields[of w] by (simp add: storeOf_def)
  then show ?thesis unfolding eq
    by (simp add: branch_ids setStatus_def updateStatus_ids)
qed

lemma classifyAndBranch_unique:
  assumes "uniqueIA (tweetsIA w)"
  shows "uniqueIA (tweetsIA (classifyAndBranch e t post w))"
proof -
  obtain a w1 where st: "storeOf w1 = storeOf (rateGate w)"
    and eq: "classifyAndBranch e t post w =
         (if category a \<noteq> ''error''
          then snd (classifiedBranch e (t_url t)
                      (baseDto (t_url t) (t_username t) (t_text t) (t_mediaUrl t))
                      (newDate (t_timestamp t)) a w1)
          else setStatus (t_url t) ''unprocessed'' w1)"
    using classifyAndBranch_cases by blast
  have "tweetsIA w1 = tweetsIA w" using st rateGate_fields[of w] by (simp add: storeOf_def)
  with assms have "uniqueIA (tweetsIA w1)" by simp
  then show ?thesis unfolding eq
    by (simp add: branch_unique setStatus_def)
qed

lemma findOne_None_iff: "findOne ps k = None \<longleftrightarrow> k \<notin> set (map tweetId ps)"
  by (auto simp add: findOne_def find_None_iff)

lemma findOne_ids:
  "map tweetId ps' = map tweetId ps \<Longrightarrow> (findOne ps' k = None) = (findOne ps k = None)"
  by (simp add: findOne_None_iff)

lemma count_by_ids:
  "length (filter (\<lambda>x. f x = k) xs) = count_list (map f xs) k"
  by (induction xs) auto

lemma count_list_distinct_le: "distinct ys \<Longrightarrow> count_list ys k \<le> 1"
  by (induction ys) (auto simp add: count_list_0_iff)

lemma count_distinct_le: "distinct (map f xs) \<Longrightarrow> length (filter (\<lambda>x. f x = k) xs) \<le> 1"
  using count_list_distinct_le[of "map f xs" k] by (simp add: count_by_ids)

lemma count_distinct_mem:
  "distinct ys \<Longrightarrow> k \<in> set ys \<Longrightarrow> count_list ys k = 1"
  by (induction ys) (auto simp add: count_list_0_iff)

subsection \<open>C1: idempotency of processTweet\<close>

text \<open>
  C1.  For a candidate with post identifier \<open>P\<close> that the Post schema accepts (identifier
  and user name present and not empty, timestamp absent or a valid date), in a store
  whose unique indexes hold, invoking processTweet twice with the same candidate leaves
  exactly one Post with identifier \<open>P\<close> and at most one TweetsIA document with identifier
  \<open>P\<close>, and the second invocation leaves the whole state as it is: no write, no call
  of the classifier, no notification.
\<close>

theorem C1_processTweet_idempotent:
  assumes url: "t_url t = Some P" and P: "P \<noteq> []"
      and name: "truthy (t_username t)"
      and stamp: "\<not> truthy (t_timestamp t) \<or> validDateString e (orEmpty (t_timestamp t))"
      and up: "uniqueIds (posts w)" and uc: "uniqueIA (tweetsIA w)"
  shows "length (filter (\<lambda>p. tweetId p = Some P) (posts (processTweet e' t (processTweet e t w)))) = 1
       \<and> length (filter (\<lambda>c. ia_tweetId c = Some P) (tweetsIA (processTweet e' t (processTweet e t w)))) \<le> 1
       \<and> processTweet e' t (processTweet e t w) = processTweet e t w"
proof -
  let ?w1 = "processTweet e t w"
  have ids: "map tweetId (posts ?w1) = (if Some P \<in> set (map tweetId (posts w))
               then map tweetId (posts w) else map tweetId (posts w) @ [Some P])"
  proof (cases "findOne (posts w) (Some P)")
    case (Some ex)
    then have "Some P \<in> set (map tweetId (posts w))"
      using findOne_None_iff[of "posts w" "Some P"] by simp
    with Some show ?thesis by (simp add: processTweet_def url)
  next
    case None
    then have notin: "Some P \<notin> set (map tweetId (posts w))"
      using findOne_None_iff[of "posts w" "Some P"] by simp
    have valid: "validPost e (newPost t (clock w))"
      using url P name stamp
      by (auto simp add: validPost_def newPost_def truthy_def validDate_def newDate_def)
    have sv: "savePost e (newPost t (clock w)) (posts w) = Some (posts w @ [newPost t (clock w)])"
      using valid None by (simp add: savePost_def newPost_def url)
    have "?w1 = classifyAndBranch e t (newPost t (clock w)) (w\<lparr>posts := posts w @ [newPost t (clock w)]\<rparr>)"
      using None sv by (simp add: processTweet_def url Let_def)
    then show ?thesis using notin
      by (simp add: classifyAndBranch_ids newPost_def url)
  qed
  have uc1: "uniqueIA (tweetsIA ?w1)"
  proof (cases "findOne (posts w) (Some P)")
    case (Some ex)
    then show ?thesis using uc by (simp add: processTweet_def url)
  next
    case None
    show ?thesis using uc None
      by (auto simp add: processTweet_def url Let_def classifyAndBranch_unique split: option.splits)
  qed
  have mem: "Some P \<in> set (map tweetId (posts ?w1))" using ids by (simp split: if_splits)
  have dist: "distinct (map tweetId (posts ?w1))"
    using ids up by (auto simp add: uniqueIds_def split: if_splits)
  have noop: "processTweet e' t ?w1 = ?w1"
  proof -
    from mem have "findOne (posts ?w1) (Some P) \<noteq> None"
      using findOne_None_iff[of "posts ?w1" "Some P"] by simp
    then show ?thesis by (auto simp add: processTweet_def[of e' t ?w1] url)
  qed
  have one: "length (filter (\<lambda>p. tweetId p = Some P) (posts ?w1)) = 1"
    using count_distinct_mem[OF dist mem] by (simp add: count_by_ids)
  have le: "length (filter (\<lambda>c. ia_tweetId c = Some P) (tweetsIA ?w1)) \<le> 1"
    using uc1 count_distinct_le[of ia_tweetId "tweetsIA ?w1" "Some P"] by (simp add: uniqueIA_def)
  show ?thesis using noop one le by simp
qed

theorem C1_witness:
  "t_url tweet1 = Some ''/user/status/1'' \<and> truthy (t_username tweet1)
   \<and> validDateString (envWith (AiText (analysisOf ''Airdrop'')) 100) (orEmpty (t_timestamp tweet1))
   \<and> uniqueIds (posts world0) \<and> uniqueIA (tweetsIA world0)
   \<and> length (filter (\<lambda>p. tweetId p = Some ''/user/status/1'')
        (posts (processTweet (envWith AiNoText 5) tweet1
                 (processTweet (envWith (AiText (analysisOf ''Airdrop'')) 100) tweet1 world0)))) = 1
   \<and> length (filter (\<lambda>c. ia_tweetId c = Some ''/user/status/1'')
        (tweetsIA (processTweet (envWith AiNoText 5) tweet1
                 (processTweet (envWith (AiText (analysisOf ''Airdrop'')) 100) tweet1 world0)))) \<le> 1
   \<and> processTweet (envWith AiNoText 5) tweet1
         (processTweet (envWith (AiText (analysisOf ''Airdrop'')) 100) tweet1 world0)
       = processTweet (envWith (AiText (analysisOf ''Airdrop'')) 100) tweet1 world0"
proof -
  have h1: "t_url tweet1 = Some ''/user/status/1''" by (simp add: tweet1_def)
  have h2: "''/user/status/1'' \<noteq> []" by simp
  have h3: "truthy (t_username tweet1)" by (simp add: tweet1_def truthy_def)
  have h4: "validDateString (envWith (AiText (analysisOf ''Airdrop'')) 100) (orEmpty (t_timestamp tweet1))"
    by (simp add: envWith_def)
  have h4': "\<not> truthy (t_timestamp tweet1)
     \<or> validDateString (envWith (AiText (analysisOf ''Airdrop'')) 100) (orEmpty (t_timestamp tweet1))"
    using h4 by simp
  have h5: "uniqueIds (posts world0)" by (simp add: world0_def uniqueIds_def)
  have h6: "uniqueIA (tweetsIA world0)" by (simp add: world0_def uniqueIA_def)
  show ?thesis
    using h1 h3 h4 h5 h6 C1_processTweet_idempotent [OF h1 h2 h3 h4' h5 h6, of "envWith AiNoText 5"]
    by blast
qed

subsection \<open>C10: classifyTweet without text and without image\<close>

text \<open>
  C10.  When the text is empty and no image part is added (no mediaUrl, no mimeType, or
  the download yields the empty string), classifyTweet returns
  \<^verbatim>\<open>{category: 'not-relevant', tags: [], contracts: []}\<close> and makes no call of the
  external classifier.
\<close>

theorem C10_classifyTweet_without_content:
  assumes "ci_text i = []"
      and "\<not> truthy (ci_mediaUrl i) \<or> \<not> truthy (ci_mimeType i)
           \<or> fst (urlToBase64 e (orEmpty (ci_mediaUrl i))) = []"
  shows "fst (classifyTweet e i w) = \<lparr>category = ''not-relevant'', tags = [], contracts = []\<rparr>
         \<and> aiCalls (snd (classifyTweet e i w)) = aiCalls w"
  using assms
  by (auto simp add: classifyTweet_def notRelevant_def sleep_def split: prod.splits)

theorem C10_witness:
  "ci_text \<lparr>ci_text = [], ci_mediaUrl = Some ''https://pbs.twimg.com/media/a.jpg'',
            ci_mimeType = Some ''image/jpeg''\<rparr> = []
   \<and> fst (urlToBase64 (envWith AiNoText 100) ''https://pbs.twimg.com/media/a.jpg'') = []
   \<and> fst (classifyTweet (envWith AiNoText 100)
             \<lparr>ci_text = [], ci_mediaUrl = Some ''https://pbs.twimg.com/media/a.jpg'',
              ci_mimeType = Some ''image/jpeg''\<rparr> world0)
       = \<lparr>category = ''not-relevant'', tags = [], contracts = []\<rparr>
   \<and> aiCalls (snd (classifyTweet (envWith AiNoText 100)
             \<lparr>ci_text = [], ci_mediaUrl = Some ''https://pbs.twimg.com/media/a.jpg'',
              ci_mimeType = Some ''image/jpeg''\<rparr> world0)) = aiCalls world0"
proof -
  let ?i = "\<lparr>ci_text = [], ci_mediaUrl = Some ''https://pbs.twimg.com/media/a.jpg'',
             ci_mimeType = Some ''image/jpeg''\<rparr>"
  have h1: "ci_text ?i = []" by simp
  have h2: "fst (urlToBase64 (envWith AiNoText 100) ''https://pbs.twimg.com/media/a.jpg'') = []"
    by (simp add: envWith_def)
  have h2': "\<not> truthy (ci_mediaUrl ?i) \<or> \<not> truthy (ci_mimeType ?i)
             \<or> fst (urlToBase64 (envWith AiNoText 100) (orEmpty (ci_mediaUrl ?i))) = []"
    using h2 by (simp add: orEmpty_def)
  show ?thesis
    using h1 h2 C10_classifyTweet_without_content [OF h1 h2', of world0] by blast
qed

subsection \<open>C9: the liquidity, volume and FDV figures of an embed\<close>

lemma showNat_nonempty: "showNat n \<noteq> []"
  by (subst showNat.simps) simp

lemma toFixed_nonempty: "toFixed f x \<noteq> []"
  by (simp add: toFixed_def Let_def showNat_nonempty)

lemma numOr_zero: "numOr v 0 = (case v of None \<Rightarrow> 0 | Some x \<Rightarrow> x)"
  by (simp add: numOr_def split: option.splits)

lemma toFixed_2_zero: "toFixed 2 0 = ''0.00''"
  by (simp add: toFixed_def padStart_def showNat.simps digitChar_def)

lemma figure_eq:
  "strOr (toFixed 2 (numOr v (0 / 1000000))) ''N/A'' =
     (case v of None \<Rightarrow> ''0.00'' | Some x \<Rightarrow> if x = 0 then ''0.00'' else toFixed 2 x)"
proof (cases v)
  case None
  then show ?thesis by (simp add: strOr_def numOr_zero toFixed_2_zero)
next
  case (Some x)
  then show ?thesis by (simp add: strOr_def numOr_zero toFixed_2_zero toFixed_nonempty)
qed

lemma toFixed_of_nat:
  "toFixed 2 (of_nat k) = showNat k @ ''.00''"
proof -
  have "\<lfloor>\<bar>of_nat k :: rat\<bar> * 10 ^ 2 + 1 / 2\<rfloor> = int (k * 100)"
    by (rule floor_unique) simp_all
  then have n: "nat \<lfloor>\<bar>of_nat k :: rat\<bar> * 10 ^ 2 + 1 / 2\<rfloor> = k * 100" by simp
  show ?thesis
    unfolding toFixed_def Let_def n
    by (simp add: padStart_def showNat.simps[of 0] digitChar_def)
qed

text \<open>
  C9.  In \<^verbatim>\<open>enrichedValue\<close> the three figures are \<^verbatim>\<open>(value || 0 / 1000000).toFixed(2)\<close>,
  that is \<^verbatim>\<open>value || (0 / 1000000)\<close>: a value that is present and not zero is rendered
  itself, undivided, with two decimals and followed by \<open>M\<close>; an absent or zero value is
  rendered as \<open>0.00\<close>.  No division by 1000000 is applied to a present value.
\<close>

theorem C9_figures_not_divided:
  "liquidityFigure d =
     (case liquidity d of None \<Rightarrow> ''0.00'' | Some v \<Rightarrow> if v = 0 then ''0.00'' else toFixed 2 v)
   \<and> volumeFigure d =
     (case volume24h d of None \<Rightarrow> ''0.00'' | Some v \<Rightarrow> if v = 0 then ''0.00'' else toFixed 2 v)
   \<and> fdvFigure d =
     (case fdv d of None \<Rightarrow> ''0.00'' | Some v \<Rightarrow> if v = 0 then ''0.00'' else toFixed 2 v)
   \<and> enrichedValue d =
       bullet @ '' **Price USD:** $'' @ priceFigure d @ newline
       @ bullet @ '' **Liquidity:** $'' @ liquidityFigure d @ ''M'' @ newline
       @ bullet @ '' **Volume (24h):** $'' @ volumeFigure d @ ''M'' @ newline
       @ bullet @ '' **FDV:** $'' @ fdvFigure d @ ''M'' @ newline
       @ newline @ ''[View on DexScreener]('' @ dexscreenerUrl d @ '')''"
  by (simp only: liquidityFigure_def volumeFigure_def fdvFigure_def figure_eq enrichedValue_def)

theorem C9_witness:
  "liquidityFigure enriched1 = ''2500000.00'' \<and> volumeFigure enriched1 = ''0.00''
   \<and> fdvFigure enriched1 = ''0.00''"
proof -
  have "toFixed 2 2500000 = ''2500000.00''"
    using toFixed_of_nat[of 2500000] by (simp add: showNat.simps digitChar_def)
  then show ?thesis
    using C9_figures_not_divided [of enriched1] by (simp add: enriched1_def)
qed

subsection \<open>C4: the outcomes of session validation\<close>

text \<open>
  When credentials are stored and no step of the check throws, checkAndInjectCredentials
  returns \<^verbatim>\<open>'premium'\<close> if the subscribe link is on the page, otherwise \<^verbatim>\<open>false\<close> if the
  login link is on the page, otherwise \<^verbatim>\<open>true\<close>; and on \<^verbatim>\<open>'premium'\<close>
  setupPersistentBrowser returns \<^verbatim>\<open>'premium'\<close> without calling handleLogin.
\<close>

lemma session_outcomes_without_throw:
  assumes "\<not> probeThrows (home b)" and "\<not> browserCloseThrows (home b)"
      and "\<not> teardownThrows (home b)"
      and "readCredentials b = Some c" and "auth_token c \<noteq> []"
      and "\<not> isLoggingIn m" and "browserInstance m \<or> setupBrowser b"
  shows "checkAndInjectCredentials (home b) (Some c) =
           (if subscribeButton (home b) then IsPremium
            else if loggedOut (home b) then IsFalse else IsTrue)
       \<and> (subscribeButton (home b) \<longrightarrow>
            fst (setupPersistentBrowser b m) = GotPremium
            \<and> logins (snd (setupPersistentBrowser b m)) = logins m)"
  using assms
  by (auto simp add: checkAndInjectCredentials_def setupPersistentBrowser_def Let_def)

text \<open>
  C4.  The subscribe link is on the page (the login link is not) and the
  \<^verbatim>\<open>browser.close()\<close> of the premium branch throws.  That call stands inside the \<^verbatim>\<open>try\<close>
  of checkAndInjectCredentials, before \<^verbatim>\<open>return 'premium'\<close>, and the \<^verbatim>\<open>catch\<close> of lines
  618-621 answers every error with \<^verbatim>\<open>false\<close>: the check returns \<^verbatim>\<open>false\<close>, not
  \<^verbatim>\<open>'premium'\<close>.  setupPersistentBrowser takes \<^verbatim>\<open>false\<close> for an expired session, calls
  handleLogin once and returns a browser.
\<close>

theorem C4_premium_lost_when_close_throws:
  "readCredentials premiumCloseFails = Some creds1
   \<and> subscribeButton (home premiumCloseFails)
   \<and> checkAndInjectCredentials (home premiumCloseFails) (Some creds1) = IsFalse
   \<and> fst (setupPersistentBrowser premiumCloseFails manager0) = GotBrowser
   \<and> logins manager0 = 0
   \<and> logins (snd (setupPersistentBrowser premiumCloseFails manager0)) = 1"
  by (simp add: premiumCloseFails_def manager0_def creds1_def checkAndInjectCredentials_def
      setupPersistentBrowser_def Let_def)

subsection \<open>The channel of a notification\<close>

lemma alert_iff: "(c \<in> set alertCategories) = (specChannel c = Alerts)"
  by (simp add: alertCategories_def specChannel_def)

lemma switch_send:
  "ia_category dto \<noteq> ''not-relevant'' \<Longrightarrow>
   switchChannels key dto w = (Normal, sendToDiscord (specChannel (ia_category dto)) dto w)"
  using alert_iff[of "ia_category dto"]
  by (cases "specChannel (ia_category dto)") (auto simp add: switchChannels_def)

lemma saveAndMark_discord: "discord (saveAndMark e key dto w) = discord w"
  by (simp add: saveAndMark_def setStatus_def split: option.splits)

lemma branch_discord:
  "discord (snd (classifiedBranch e key base stamp a w)) =
     (if category a = ''not-relevant'' then discord w
      else discord w @ [(specChannel (category a),
             base\<lparr>ia_timestamp := stamp (clock w), ia_category := category a,
                  ia_tags := tags a, ia_contracts := contracts a,
                  enriched := fst (enrichContracts e (contracts a) w)\<rparr>)])"
proof -
  obtain en w1 where en: "enrichContracts e (contracts a) w = (en, w1)"
    by (cases "enrichContracts e (contracts a) w")
  from enrich_fields[of e "contracts a" w] en
  have p: "discord w1 = discord w" "clock w1 = clock w" by simp_all
  show ?thesis
  proof (cases "category a = ''not-relevant''")
    case True
    then show ?thesis using en p by (simp add: classifiedBranch_def setStatus_def)
  next
    case False
    then show ?thesis using en p
      by (simp add: classifiedBranch_def Let_def switch_send saveAndMark_discord sendToDiscord_def)
  qed
qed

lemma branch_routed:
  assumes "category a \<noteq> ''error''"
  shows "\<exists>sent. discord (snd (classifiedBranch e key base stamp a w)) = discord w @ sent
           \<and> list_all routedRight sent"
proof (cases "category a = ''not-relevant''")
  case True
  then show ?thesis by (simp add: branch_discord)
next
  case False
  with assms show ?thesis by (simp add: branch_discord routedRight_def)
qed

lemma processTweet_routed:
  "\<exists>sent. discord (processTweet e t w) = discord w @ sent \<and> list_all routedRight sent"
proof (cases "findOne (posts w) (t_url t)")
  case (Some ex)
  then show ?thesis by (simp add: processTweet_def)
next
  case None
  show ?thesis
  proof (cases "savePost e (newPost t (clock w)) (posts w)")
    case N: None
    with None show ?thesis by (simp add: processTweet_def)
  next
    case (Some ps)
    let ?w0 = "w\<lparr>posts := ps\<rparr>"
    have eq: "processTweet e t w = classifyAndBranch e t (newPost t (clock w)) ?w0"
      using None Some by (simp add: processTweet_def)
    obtain a w1 where st: "storeOf w1 = storeOf (rateGate ?w0)"
      and cb: "classifyAndBranch e t (newPost t (clock w)) ?w0 =
         (if category a \<noteq> ''error''
          then snd (classifiedBranch e (t_url t)
                      (baseDto (t_url t) (t_username t) (t_text t) (t_mediaUrl t))
                      (newDate (t_timestamp t)) a w1)
          else setStatus (t_url t) ''unprocessed'' w1)"
      using classifyAndBranch_cases by blast
    have d: "discord w1 = discord w" using st rateGate_fields[of ?w0] by (simp add: storeOf_def)
    show ?thesis
    proof (cases "category a = ''error''")
      case True
      then show ?thesis using eq cb d by (simp add: setStatus_def)
    next
      case False
      then show ?thesis using eq cb d branch_routed[OF False, of e "t_url t" _ _ w1] by simp
    qed
  qed
qed

lemma retryOne_routed:
  "\<exists>sent. discord (snd (retryOne e p w)) = discord w @ sent \<and> list_all routedRight sent"
proof -
  obtain a w1 where r: "withTimeout (classifyCall e (p_text p) (p_mediaUrl p)) AI_TIMEOUT_MS errorAnalysis w
          = (Inr a, w1)" and st: "storeOf w1 = storeOf w"
    using withTimeout_classifyCall by blast
  have d: "discord w1 = discord w" using st by (simp add: storeOf_def)
  show ?thesis
  proof (cases "category a = ''error''")
    case True
    then show ?thesis using r d by (simp add: retryOne_def)
  next
    case False
    then show ?thesis using r d branch_routed[OF False, of e "tweetId p" _ _ w1]
      by (simp add: retryOne_def)
  qed
qed

lemma retryLoop_routed:
  "\<exists>sent. discord (retryLoop e ps w) = discord w @ sent \<and> list_all routedRight sent"
proof (induction ps arbitrary: w)
  case Nil
  show ?case by simp
next
  case (Cons p ps)
  obtain f w1 where r: "retryOne e p w = (f, w1)" by (cases "retryOne e p w")
  obtain s1 where s1: "discord w1 = discord w @ s1" "list_all routedRight s1"
    using retryOne_routed[of e p w] r by auto
  show ?case
  proof (cases f)
    case Returned
    then show ?thesis using r s1 by simp
  next
    case Normal
    obtain s2 where s2: "discord (retryLoop e ps w1) = discord w1 @ s2" "list_all routedRight s2"
      using Cons.IH[of w1] by blast
    have "discord (retryLoop e (p # ps) w) = discord w @ (s1 @ s2)"
      using Normal r s1 s2 by simp
    moreover have "list_all routedRight (s1 @ s2)" using s1 s2 by simp
    ultimately show ?thesis by blast
  qed
qed

subsection \<open>C3: a classifier call that fails\<close>

lemma findOne_update_same:
  "findOne (updateStatus k s ps) k = map_option (\<lambda>p. p\<lparr>status := s\<rparr>) (findOne ps k)"
  by (induction ps) (simp_all add: findOne_def)

lemma findOne_update_other:
  "k' \<noteq> k \<Longrightarrow> findOne (updateStatus k s ps) k' = findOne ps k'"
  by (induction ps) (simp_all add: findOne_def)

lemma statusOf_setStatus:
  "statusOf (setStatus k s w) k' =
     (if k' = k then map_option (\<lambda>x. s) (statusOf w k) else statusOf w k')"
  by (simp add: statusOf_def setStatus_def findOne_update_same findOne_update_other
      option.map_comp comp_def)

lemma statusOf_posts: "posts w' = posts w \<Longrightarrow> statusOf w' k = statusOf w k"
  by (simp add: statusOf_def)

lemma switch_posts:
  "ia_category dto \<noteq> ''not-relevant'' \<Longrightarrow> posts (snd (switchChannels key dto w)) = posts w"
  by (simp add: switch_send sendToDiscord_def)

lemma statusOf_tweetsIA_update: "statusOf (w\<lparr>tweetsIA := cs\<rparr>) k = statusOf w k"
  by (simp add: statusOf_def)

lemma statusOf_sendToDiscord: "statusOf (sendToDiscord ch dto w) k = statusOf w k"
  by (simp add: statusOf_def sendToDiscord_def)

lemma saveAndMark_status:
  "statusOf (saveAndMark e key dto w) k =
     (if k = key \<and> saveTweetsIA e dto (tweetsIA w) \<noteq> None
      then map_option (\<lambda>x. ''processed'') (statusOf w k) else statusOf w k)"
proof (cases "saveTweetsIA e dto (tweetsIA w)")
  case None
  then show ?thesis by (simp add: saveAndMark_def)
next
  case (Some cs)
  then show ?thesis
    by (simp add: saveAndMark_def statusOf_setStatus statusOf_tweetsIA_update)
qed

lemma tweetsIA_sendToDiscord: "tweetsIA (sendToDiscord ch dto w) = tweetsIA w"
  by (simp add: sendToDiscord_def)

lemma branch_status:
  "statusOf (snd (classifiedBranch e key base stamp a w)) k =
     (if k \<noteq> key then statusOf w k
      else if category a = ''not-relevant'' then map_option (\<lambda>x. ''discarded'') (statusOf w k)
      else if saveTweetsIA e
                (base\<lparr>ia_timestamp := stamp (clock w), ia_category := category a,
                      ia_tags := tags a, ia_contracts := contracts a,
                      enriched := fst (enrichContracts e (contracts a) w)\<rparr>) (tweetsIA w) \<noteq> None
           then map_option (\<lambda>x. ''processed'') (statusOf w k)
      else statusOf w k)"
proof -
  obtain en w1 where en: "enrichContracts e (contracts a) w = (en, w1)"
    by (cases "enrichContracts e (contracts a) w")
  from enrich_fields[of e "contracts a" w] en
  have p: "posts w1 = posts w" "clock w1 = clock w" "tweetsIA w1 = tweetsIA w" by simp_all
  have s1: "\<And>k. statusOf w1 k = statusOf w k" using p by (simp add: statusOf_def)
  show ?thesis
  proof (cases "category a = ''not-relevant''")
    case True
    then show ?thesis using en s1 by (simp add: classifiedBranch_def statusOf_setStatus)
  next
    case False
    define dto where "dto = base\<lparr>ia_timestamp := stamp (clock w), ia_category := category a,
                      ia_tags := tags a, ia_contracts := contracts a, enriched := en\<rparr>"
    have c: "ia_category dto \<noteq> ''not-relevant''" using False by (simp add: dto_def)
    have "snd (classifiedBranch e key base stamp a w)
            = saveAndMark e key dto (sendToDiscord (specChannel (ia_category dto)) dto w1)"
      using en False p switch_send[OF c, of key w1]
      by (simp add: classifiedBranch_def Let_def dto_def)
    then show ?thesis using False en p s1
      by (simp add: saveAndMark_status statusOf_sendToDiscord tweetsIA_sendToDiscord dto_def)
  qed
qed

lemma branch_tweetsIA_notRelevant:
  "category a = ''not-relevant'' \<Longrightarrow>
   tweetsIA (snd (classifiedBranch e key base stamp a w)) = tweetsIA w"
  using enrich_fields[of e "contracts a" w]
  by (auto simp add: classifiedBranch_def setStatus_def split: prod.splits)

lemma classifyTweet_throws:
  assumes "\<And>parts. generateContent e (length (aiCalls w)) parts = (AiThrows st, ms)"
      and "txt \<noteq> [] \<or> (truthy media \<and> fst (urlToBase64 e (orEmpty media)) \<noteq> [])"
  shows "classifyTweet e \<lparr>ci_text = txt, ci_mediaUrl = media, ci_mimeType = Some ''image/jpeg''\<rparr> w
         = (notRelevant,
            w\<lparr>aiCalls := aiCalls w @ [clock w + downloadTime e media],
              clock := clock w + downloadTime e media + ms\<rparr>)"
  using assms
  by (auto simp add: classifyTweet_def downloadTime_def sleep_def truthy_def Let_def
      split: prod.splits)

lemma saveAndMark_aiCalls: "aiCalls (saveAndMark e key dto w) = aiCalls w"
  by (simp add: saveAndMark_def setStatus_def split: option.splits)

lemma branch_aiCalls: "aiCalls (snd (classifiedBranch e key base stamp a w)) = aiCalls w"
proof -
  obtain en w1 where en: "enrichContracts e (contracts a) w = (en, w1)"
    by (cases "enrichContracts e (contracts a) w")
  from enrich_fields[of e "contracts a" w] en have p: "aiCalls w1 = aiCalls w" by simp
  show ?thesis
  proof (cases "category a = ''not-relevant''")
    case True
    then show ?thesis using en p by (simp add: classifiedBranch_def setStatus_def)
  next
    case False
    then show ?thesis using en p
      by (simp add: classifiedBranch_def Let_def switch_send saveAndMark_aiCalls sendToDiscord_def)
  qed
qed

lemma findOne_append_new:
  "findOne ps k = None \<Longrightarrow> tweetId p = k \<Longrightarrow> findOne (ps @ [p]) k = Some p"
  by (induction ps) (auto simp add: findOne_def split: if_splits)

lemma processTweet_new:
  assumes url: "t_url t = Some P" and P: "P \<noteq> []"
      and name: "truthy (t_username t)"
      and stamp: "\<not> truthy (t_timestamp t) \<or> validDateString e (orEmpty (t_timestamp t))"
      and new: "findOne (posts w) (Some P) = None"
  shows "processTweet e t w =
           classifyAndBranch e t (newPost t (clock w)) (w\<lparr>posts := posts w @ [newPost t (clock w)]\<rparr>)"
proof -
  have valid: "validPost e (newPost t (clock w))"
    using url P name stamp
    by (auto simp add: validPost_def newPost_def truthy_def validDate_def newDate_def)
  have sv: "savePost e (newPost t (clock w)) (posts w) = Some (posts w @ [newPost t (clock w)])"
    using valid new by (simp add: savePost_def newPost_def url)
  show ?thesis using new sv by (simp add: processTweet_def url Let_def)
qed

text \<open>
  A call of the classifier that throws before the timeout, with any status other than
  503: the post of a new candidate ends \<open>discarded\<close>.
\<close>

lemma processTweet_failed_call:
  assumes url: "t_url t = Some P" and P: "P \<noteq> []"
      and name: "truthy (t_username t)"
      and stamp: "\<not> truthy (t_timestamp t) \<or> validDateString e (orEmpty (t_timestamp t))"
      and new: "findOne (posts w) (Some P) = None"
      and content: "truthy (t_text t)
                    \<or> (truthy (t_mediaUrl t) \<and> fst (urlToBase64 e (orEmpty (t_mediaUrl t))) \<noteq> [])"
      and fails: "\<And>parts. generateContent e (length (aiCalls w)) parts = (AiThrows st, ms)"
      and other: "st \<noteq> Some 503"
      and intime: "downloadTime e (t_mediaUrl t) + ms < 20000"
  shows "length (aiCalls (processTweet e t w)) = length (aiCalls w) + 1
       \<and> statusOf (processTweet e t w) (Some P) = Some ''discarded''
       \<and> tweetsIA (processTweet e t w) = tweetsIA w
       \<and> discord (processTweet e t w) = discord w"
proof -
  let ?post = "newPost t (clock w)"
  let ?w0 = "w\<lparr>posts := posts w @ [?post]\<rparr>"
  let ?wg = "rateGate ?w0"
  let ?w1 = "?wg\<lparr>aiCalls := aiCalls ?wg @ [clock ?wg + downloadTime e (t_mediaUrl t)],
                 clock := clock ?wg + downloadTime e (t_mediaUrl t) + ms\<rparr>"
  have g: "aiCalls ?wg = aiCalls w" "posts ?wg = posts ?w0" "tweetsIA ?wg = tweetsIA w"
          "discord ?wg = discord w"
    using rateGate_fields[of ?w0] by simp_all
  have tx: "orEmpty (t_text t) \<noteq> []
             \<or> (truthy (t_mediaUrl t) \<and> fst (urlToBase64 e (orEmpty (t_mediaUrl t))) \<noteq> [])"
    using content by (auto simp add: truthy_def orEmpty_def split: option.splits)
  have f: "\<And>parts. generateContent e (length (aiCalls ?wg)) parts = (AiThrows st, ms)"
    using fails g by simp
  have ct: "classifyCall e (p_text ?post) (p_mediaUrl ?post) ?wg = (Inr notRelevant, ?w1)"
    using classifyTweet_throws[of e ?wg st ms "orEmpty (t_text t)" "t_mediaUrl t", OF f tx]
    by (simp add: classifyCall_def newPost_def)
  have wt: "withTimeout (classifyCall e (p_text ?post) (p_mediaUrl ?post)) 20000 errorAnalysis ?wg
              = (Inr notRelevant, ?w1)"
    using ct intime by (simp add: withTimeout_def)
  have eq: "processTweet e t w =
              snd (classifiedBranch e (Some P)
                     (baseDto (t_url t) (t_username t) (t_text t) (t_mediaUrl t))
                     (newDate (t_timestamp t)) notRelevant ?w1)"
    using processTweet_new[OF url P name stamp new] wt
    by (simp add: classifyAndBranch_def retry_classifyCall_fun notRelevant_def url)
  have c: "category notRelevant = ''not-relevant''" by (simp add: notRelevant_def)
  have found: "findOne (posts ?w1) (Some P) = Some ?post"
    using findOne_append_new[OF new, of ?post] g by (simp add: newPost_def url)
  have st0: "statusOf ?w1 (Some P) = Some ''unprocessed''"
    using found by (simp add: statusOf_def newPost_def)
  have "statusOf (processTweet e t w) (Some P) = Some ''discarded''"
    unfolding eq using st0 c by (simp add: branch_status)
  moreover have "length (aiCalls (processTweet e t w)) = length (aiCalls w) + 1"
    unfolding eq using g by (simp add: branch_aiCalls)
  moreover have "tweetsIA (processTweet e t w) = tweetsIA w"
    unfolding eq using g c by (simp add: branch_tweetsIA_notRelevant)
  moreover have "discord (processTweet e t w) = discord w"
    unfolding eq using g c by (simp add: branch_discord)
  ultimately show ?thesis by simp
qed

text \<open>
  The run on the candidate of the scenarios, from the empty store, when the call throws
  with status 500 after 100 ms: the gate waits 6000 ms, the call takes 100 ms, and the
  post is left \<open>discarded\<close>.
\<close>

lemma failed_run:
  "processTweet (envWith (AiThrows (Some 500)) 100) tweet1 world0
     = world0\<lparr>posts := [(newPost tweet1 0)\<lparr>status := ''discarded''\<rparr>], aiCalls := [6000],
              clock := 6100, lastAICallTime := 6000\<rparr>"
  by code_simp

text \<open>
  C3.  processTweet handles a new candidate on an empty store, and the call of the
  external classifier throws an error with status 500 after 100 ms.  classifyTweet
  catches the error itself and returns its \<open>not-relevant\<close> object, so the error reaches
  neither retryWithBackoff nor the \<^verbatim>\<open>catch\<close> of processTweet, and the category is not
  \<open>error\<close>.  The classifier is called once, no TweetsIA document is created and no
  notification is sent; but the post is marked \<open>discarded\<close>, not \<open>unprocessed\<close>, and the
  recovery sweep finds nothing to retry.
\<close>

theorem C3_failed_call_discards_post:
  "generateContent (envWith (AiThrows (Some 500)) 100) 0 [] = (AiThrows (Some 500), 100)
   \<and> findOne (posts world0) (t_url tweet1) = None
   \<and> length (aiCalls (processTweet (envWith (AiThrows (Some 500)) 100) tweet1 world0)) = 1
   \<and> map tweetId (posts (processTweet (envWith (AiThrows (Some 500)) 100) tweet1 world0))
        = [t_url tweet1]
   \<and> map status (posts (processTweet (envWith (AiThrows (Some 500)) 100) tweet1 world0))
        = [''discarded'']
   \<and> tweetsIA (processTweet (envWith (AiThrows (Some 500)) 100) tweet1 world0) = []
   \<and> discord (processTweet (envWith (AiThrows (Some 500)) 100) tweet1 world0) = []
   \<and> pendingPosts 5 (processTweet (envWith (AiThrows (Some 500)) 100) tweet1 world0) = []"
  unfolding failed_run
  by (simp add: world0_def newPost_def pendingPosts_def findOne_def envWith_def tweet1_def)

subsection \<open>C6: routing by category\<close>

lemma classifyTweet_answers:
  assumes "\<And>parts. generateContent e (length (aiCalls w)) parts = (AiText a, ms)"
      and "txt \<noteq> [] \<or> (truthy media \<and> fst (urlToBase64 e (orEmpty media)) \<noteq> [])"
  shows "classifyTweet e \<lparr>ci_text = txt, ci_mediaUrl = media, ci_mimeType = Some ''image/jpeg''\<rparr> w
         = (a,
            w\<lparr>aiCalls := aiCalls w @ [clock w + downloadTime e media],
              clock := clock w + downloadTime e media + ms\<rparr>)"
  using assms
  by (auto simp add: classifyTweet_def downloadTime_def sleep_def truthy_def Let_def
      split: prod.splits)

lemma orEmpty_content:
  "truthy txt \<or> (truthy media \<and> fst (urlToBase64 e (orEmpty media)) \<noteq> [])
   \<Longrightarrow> orEmpty txt \<noteq> [] \<or> (truthy media \<and> fst (urlToBase64 e (orEmpty media)) \<noteq> [])"
  by (auto simp add: truthy_def orEmpty_def split: option.splits)

lemma processTweet_notifies:
  assumes url: "t_url t = Some P" and P: "P \<noteq> []"
      and name: "truthy (t_username t)"
      and stamp: "\<not> truthy (t_timestamp t) \<or> validDateString e (orEmpty (t_timestamp t))"
      and new: "findOne (posts w) (Some P) = None"
      and content: "truthy (t_text t)
                    \<or> (truthy (t_mediaUrl t) \<and> fst (urlToBase64 e (orEmpty (t_mediaUrl t))) \<noteq> [])"
      and answers: "\<And>parts. generateContent e (length (aiCalls w)) parts = (AiText a, ms)"
      and intime: "downloadTime e (t_mediaUrl t) + ms \<le> 20000"
      and c1: "category a \<noteq> ''error''" and c2: "category a \<noteq> ''not-relevant''"
  shows "\<exists>dto. ia_tweetId dto = Some P \<and> ia_category dto = category a
           \<and> ia_tags dto = tags a \<and> ia_contracts dto = contracts a
           \<and> discord (processTweet e t w) = discord w @ [(specChannel (category a), dto)]"
proof -
  let ?post = "newPost t (clock w)"
  let ?w0 = "w\<lparr>posts := posts w @ [?post]\<rparr>"
  let ?wg = "rateGate ?w0"
  let ?w1 = "?wg\<lparr>aiCalls := aiCalls ?wg @ [clock ?wg + downloadTime e (t_mediaUrl t)],
                 clock := clock ?wg + downloadTime e (t_mediaUrl t) + ms\<rparr>"
  have g: "aiCalls ?wg = aiCalls w" "discord ?wg = discord w"
    using rateGate_fields[of ?w0] by simp_all
  have f: "\<And>parts. generateContent e (length (aiCalls ?wg)) parts = (AiText a, ms)"
    using answers g by simp
  have ct: "classifyCall e (p_text ?post) (p_mediaUrl ?post) ?wg = (Inr a, ?w1)"
    using classifyTweet_answers[of e ?wg a ms "orEmpty (t_text t)" "t_mediaUrl t",
        OF f orEmpty_content[OF content]]
    by (simp add: classifyCall_def newPost_def)
  have wt: "withTimeout (classifyCall e (p_text ?post) (p_mediaUrl ?post)) 20000 errorAnalysis ?wg
              = (Inr a, ?w1)"
    using ct intime by (simp add: withTimeout_def)
  have eq: "processTweet e t w =
              snd (classifiedBranch e (Some P)
                     (baseDto (t_url t) (t_username t) (t_text t) (t_mediaUrl t))
                     (newDate (t_timestamp t)) a ?w1)"
    using processTweet_new[OF url P name stamp new] wt c1
    by (simp add: classifyAndBranch_def retry_classifyCall_fun url)
  have d: "discord ?w1 = discord w" using g by simp
  show ?thesis unfolding eq using c2 d
    by (simp add: branch_discord baseDto_def url)
qed

lemma retryOne_notifies:
  assumes content: "truthy (p_text p)
                    \<or> (truthy (p_mediaUrl p) \<and> fst (urlToBase64 e (orEmpty (p_mediaUrl p))) \<noteq> [])"
      and answers: "\<And>parts. generateContent e (length (aiCalls w)) parts = (AiText a, ms)"
      and intime: "downloadTime e (p_mediaUrl p) + ms \<le> AI_TIMEOUT_MS"
      and c1: "category a \<noteq> ''error''" and c2: "category a \<noteq> ''not-relevant''"
  shows "\<exists>dto. ia_tweetId dto = tweetId p \<and> ia_category dto = category a
           \<and> ia_tags dto = tags a \<and> ia_contracts dto = contracts a
           \<and> discord (snd (retryOne e p w)) = discord w @ [(specChannel (category a), dto)]"
proof -
  let ?w1 = "w\<lparr>aiCalls := aiCalls w @ [clock w + downloadTime e (p_mediaUrl p)],
                clock := clock w + downloadTime e (p_mediaUrl p) + ms\<rparr>"
  have ct: "classifyCall e (p_text p) (p_mediaUrl p) w = (Inr a, ?w1)"
    using classifyTweet_answers[of e w a ms "orEmpty (p_text p)" "p_mediaUrl p",
        OF answers orEmpty_content[OF content]]
    by (simp add: classifyCall_def)
  have wt: "withTimeout (classifyCall e (p_text p) (p_mediaUrl p)) AI_TIMEOUT_MS errorAnalysis w
              = (Inr a, ?w1)"
    using ct intime by (simp add: withTimeout_def)
  have eq: "retryOne e p w =
              classifiedBranch e (tweetId p)
                (baseDto (tweetId p) (p_username p) (p_text p) (p_mediaUrl p))
                (\<lambda>now. p_timestamp p) a ?w1"
    using wt c1 by (simp add: retryOne_def)
  show ?thesis unfolding eq using c2
    by (simp add: branch_discord baseDto_def)
qed

lemma sweep_notifies:
  assumes pending: "pendingPosts n w = p # ps"
      and content: "truthy (p_text p)
                    \<or> (truthy (p_mediaUrl p) \<and> fst (urlToBase64 e (orEmpty (p_mediaUrl p))) \<noteq> [])"
      and answers: "\<And>parts. generateContent e (length (aiCalls w)) parts = (AiText a, ms)"
      and intime: "downloadTime e (p_mediaUrl p) + ms \<le> AI_TIMEOUT_MS"
      and c1: "category a \<noteq> ''error''" and c2: "category a \<noteq> ''not-relevant''"
  shows "\<exists>dto sent. ia_tweetId dto = tweetId p \<and> ia_category dto = category a
           \<and> ia_tags dto = tags a \<and> ia_contracts dto = contracts a
           \<and> discord (retryFailedAI e n w) = discord w @ (specChannel (category a), dto) # sent
           \<and> list_all routedRight sent"
proof -
  obtain f w1 where r: "retryOne e p w = (f, w1)" by (cases "retryOne e p w")
  obtain dto where dto: "ia_tweetId dto = tweetId p" "ia_category dto = category a"
      "ia_tags dto = tags a" "ia_contracts dto = contracts a"
      "discord w1 = discord w @ [(specChannel (category a), dto)]"
    using retryOne_notifies[OF content answers intime c1 c2] r by auto
  show ?thesis
  proof (cases f)
    case Returned
    then have "discord (retryFailedAI e n w) = discord w @ (specChannel (category a), dto) # []"
      using r dto pending by (simp add: retryFailedAI_def)
    moreover have "list_all routedRight []" by simp
    ultimately show ?thesis using dto by blast
  next
    case Normal
    obtain s2 where s2: "discord (retryLoop e ps w1) = discord w1 @ s2" "list_all routedRight s2"
      using retryLoop_routed[of e ps w1] by blast
    have "discord (retryFailedAI e n w) = discord w @ (specChannel (category a), dto) # s2"
      using Normal r dto s2 pending by (simp add: retryFailedAI_def)
    then show ?thesis using dto s2 by blast
  qed
qed

lemma branch_flow:
  "category a \<noteq> ''not-relevant'' \<Longrightarrow> fst (classifiedBranch e key base stamp a w) = Normal"
  by (simp add: classifiedBranch_def Let_def switch_send split: prod.splits)

lemma retryOne_answered:
  assumes content: "truthy (p_text p)
                    \<or> (truthy (p_mediaUrl p) \<and> fst (urlToBase64 e (orEmpty (p_mediaUrl p))) \<noteq> [])"
      and answers: "\<And>parts. generateContent e (length (aiCalls w)) parts = (AiText a, ms)"
      and intime: "downloadTime e (p_mediaUrl p) + ms \<le> AI_TIMEOUT_MS"
      and c1: "category a \<noteq> ''error''" and c2: "category a \<noteq> ''not-relevant''"
  shows "fst (retryOne e p w) = Normal"
proof -
  let ?w1 = "w\<lparr>aiCalls := aiCalls w @ [clock w + downloadTime e (p_mediaUrl p)],
                clock := clock w + downloadTime e (p_mediaUrl p) + ms\<rparr>"
  have ct: "classifyCall e (p_text p) (p_mediaUrl p) w = (Inr a, ?w1)"
    using classifyTweet_answers[of e w a ms "orEmpty (p_text p)" "p_mediaUrl p",
        OF answers orEmpty_content[OF content]]
    by (simp add: classifyCall_def)
  have wt: "withTimeout (classifyCall e (p_text p) (p_mediaUrl p)) AI_TIMEOUT_MS errorAnalysis w
              = (Inr a, ?w1)"
    using ct intime by (simp add: withTimeout_def)
  have eq: "retryOne e p w =
              classifiedBranch e (tweetId p)
                (baseDto (tweetId p) (p_username p) (p_text p) (p_mediaUrl p))
                (\<lambda>now. p_timestamp p) a ?w1"
    using wt c1 by (simp add: retryOne_def)
  show ?thesis unfolding eq using c2 by (rule branch_flow)
qed

lemma retryLoop_notifies_all:
  assumes answers: "\<And>k parts. generateContent e k parts = (AiText a, ms)"
      and c1: "category a \<noteq> ''error''" and c2: "category a \<noteq> ''not-relevant''"
      and ok: "\<And>p. p \<in> set ps \<Longrightarrow>
                 (truthy (p_text p)
                   \<or> (truthy (p_mediaUrl p) \<and> fst (urlToBase64 e (orEmpty (p_mediaUrl p))) \<noteq> []))
                 \<and> downloadTime e (p_mediaUrl p) + ms \<le> AI_TIMEOUT_MS"
  shows "\<exists>dtos. map ia_tweetId dtos = map tweetId ps
           \<and> map ia_category dtos = map (\<lambda>p. category a) ps
           \<and> discord (retryLoop e ps w) = discord w @ map (Pair (specChannel (category a))) dtos"
  using ok
proof (induction ps arbitrary: w)
  case Nil
  show ?case by simp
next
  case (Cons p ps)
  have content: "truthy (p_text p)
                 \<or> (truthy (p_mediaUrl p) \<and> fst (urlToBase64 e (orEmpty (p_mediaUrl p))) \<noteq> [])"
    and intime: "downloadTime e (p_mediaUrl p) + ms \<le> AI_TIMEOUT_MS"
    using Cons.prems[of p] by simp_all
  obtain f w1 where r: "retryOne e p w = (f, w1)" by (cases "retryOne e p w")
  have f: "f = Normal" using retryOne_answered[OF content answers intime c1 c2, of w] r by simp
  obtain dto where dto: "ia_tweetId dto = tweetId p" "ia_category dto = category a"
      "discord w1 = discord w @ [(specChannel (category a), dto)]"
    using retryOne_notifies[OF content answers intime c1 c2, of w] r by auto
  have "\<And>q. q \<in> set ps \<Longrightarrow>
                 (truthy (p_text q)
                   \<or> (truthy (p_mediaUrl q) \<and> fst (urlToBase64 e (orEmpty (p_mediaUrl q))) \<noteq> []))
                 \<and> downloadTime e (p_mediaUrl q) + ms \<le> AI_TIMEOUT_MS"
    using Cons.prems by simp
  from Cons.IH[OF this, of w1]
  obtain dtos where dtos: "map ia_tweetId dtos = map tweetId ps"
      "map ia_category dtos = map (\<lambda>p. category a) ps"
      "discord (retryLoop e ps w1) = discord w1 @ map (Pair (specChannel (category a))) dtos"
    by blast
  have "map ia_tweetId (dto # dtos) = map tweetId (p # ps)" using dto dtos by simp
  moreover have "map ia_category (dto # dtos) = map (\<lambda>p. category a) (p # ps)"
    using dto dtos by simp
  moreover have "discord (retryLoop e (p # ps) w)
        = discord w @ map (Pair (specChannel (category a))) (dto # dtos)"
    using r f dto dtos by simp
  ultimately show ?case by blast
qed

text \<open>
  C6.  Let the classifier answer a call with a category that is neither \<open>error\<close> nor
  \<open>not-relevant\<close>.  When processTweet handles a new candidate that the Post schema
  accepts and the answer arrives within the timeout of 20 seconds, the run sends exactly
  one notification, for that post, with the category, tags and contracts of the answer:
  on the alerts channel when the category is one of Airdrop, Launch Alerts, Presale,
  Contract Alert, Listing, Price Alert, Scam Warning, Giveaway, Signals, PnL Sharing,
  and on the general channel otherwise.  When the recovery sweep fetches a post and the
  answer for the first one arrives within its timeout of 15 seconds, the first
  notification of the sweep is that one, on the same channel, and the notifications
  after it are routed in the same way; when the classifier gives that answer to every
  call and in time, the sweep sends exactly one notification for each post it fetched,
  in order, all on that channel.  The branch that both functions share sends exactly
  one such notification, and every notification that processTweet or the sweep sends in
  any run is routed in this way.
\<close>

theorem C6_category_routing:
  assumes c1: "category a \<noteq> ''error''" and c2: "category a \<noteq> ''not-relevant''"
  shows "(t_url t = Some P \<and> P \<noteq> [] \<and> truthy (t_username t)
          \<and> (\<not> truthy (t_timestamp t) \<or> validDateString e (orEmpty (t_timestamp t)))
          \<and> findOne (posts w) (Some P) = None
          \<and> (truthy (t_text t)
               \<or> (truthy (t_mediaUrl t) \<and> fst (urlToBase64 e (orEmpty (t_mediaUrl t))) \<noteq> []))
          \<and> (\<forall>parts. generateContent e (length (aiCalls w)) parts = (AiText a, ms))
          \<and> downloadTime e (t_mediaUrl t) + ms \<le> 20000
          \<longrightarrow> (\<exists>dto. ia_tweetId dto = Some P \<and> ia_category dto = category a
                  \<and> ia_tags dto = tags a \<and> ia_contracts dto = contracts a
                  \<and> discord (processTweet e t w) = discord w @ [(specChannel (category a), dto)]))
       \<and> (pendingPosts n w = p # ps
          \<and> (truthy (p_text p)
               \<or> (truthy (p_mediaUrl p) \<and> fst (urlToBase64 e (orEmpty (p_mediaUrl p))) \<noteq> []))
          \<and> (\<forall>parts. generateContent e (length (aiCalls w)) parts = (AiText a, ms))
          \<and> downloadTime e (p_mediaUrl p) + ms \<le> AI_TIMEOUT_MS
          \<longrightarrow> (\<exists>dto sent. ia_tweetId dto = tweetId p \<and> ia_category dto = category a
                  \<and> ia_tags dto = tags a \<and> ia_contracts dto = contracts a
                  \<and> discord (retryFailedAI e n w)
                      = discord w @ (specChannel (category a), dto) # sent
                  \<and> list_all routedRight sent))
       \<and> ((\<forall>k parts. generateContent e k parts = (AiText a, ms))
          \<and> (\<forall>q \<in> set (pendingPosts n w).
                (truthy (p_text q)
                  \<or> (truthy (p_mediaUrl q) \<and> fst (urlToBase64 e (orEmpty (p_mediaUrl q))) \<noteq> []))
                \<and> downloadTime e (p_mediaUrl q) + ms \<le> AI_TIMEOUT_MS)
          \<longrightarrow> (\<exists>dtos. map ia_tweetId dtos = map tweetId (pendingPosts n w)
                  \<and> map ia_category dtos = map (\<lambda>q. category a) (pendingPosts n w)
                  \<and> discord (retryFailedAI e n w)
                      = discord w @ map (Pair (specChannel (category a))) dtos))
       \<and> (\<exists>dto. ia_category dto = category a
             \<and> discord (snd (classifiedBranch e key base stamp a w))
                 = discord w @ [(specChannel (category a), dto)])
       \<and> (\<exists>sent. discord (processTweet e t w) = discord w @ sent \<and> list_all routedRight sent)
       \<and> (\<exists>sent. discord (retryFailedAI e n w) = discord w @ sent \<and> list_all routedRight sent)"
proof -
  have A: "t_url t = Some P \<and> P \<noteq> [] \<and> truthy (t_username t)
          \<and> (\<not> truthy (t_timestamp t) \<or> validDateString e (orEmpty (t_timestamp t)))
          \<and> findOne (posts w) (Some P) = None
          \<and> (truthy (t_text t)
               \<or> (truthy (t_mediaUrl t) \<and> fst (urlToBase64 e (orEmpty (t_mediaUrl t))) \<noteq> []))
          \<and> (\<forall>parts. generateContent e (length (aiCalls w)) parts = (AiText a, ms))
          \<and> downloadTime e (t_mediaUrl t) + ms \<le> 20000
          \<longrightarrow> (\<exists>dto. ia_tweetId dto = Some P \<and> ia_category dto = category a
                  \<and> ia_tags dto = tags a \<and> ia_contracts dto = contracts a
                  \<and> discord (processTweet e t w) = discord w @ [(specChannel (category a), dto)])"
  proof (intro impI, elim conjE)
    assume h: "t_url t = Some P" "P \<noteq> []" "truthy (t_username t)"
      "\<not> truthy (t_timestamp t) \<or> validDateString e (orEmpty (t_timestamp t))"
      "findOne (posts w) (Some P) = None"
      "truthy (t_text t)
         \<or> (truthy (t_mediaUrl t) \<and> fst (urlToBase64 e (orEmpty (t_mediaUrl t))) \<noteq> [])"
      "\<forall>parts. generateContent e (length (aiCalls w)) parts = (AiText a, ms)"
      "downloadTime e (t_mediaUrl t) + ms \<le> 20000"
    from h(7) have ans: "\<And>parts. generateContent e (length (aiCalls w)) parts = (AiText a, ms)"
      by simp
    show "\<exists>dto. ia_tweetId dto = Some P \<and> ia_category dto = category a
                  \<and> ia_tags dto = tags a \<and> ia_contracts dto = contracts a
                  \<and> discord (processTweet e t w) = discord w @ [(specChannel (category a), dto)]"
      by (rule processTweet_notifies[OF h(1) h(2) h(3) h(4) h(5) h(6) ans h(8) c1 c2])
  qed
  have B: "pendingPosts n w = p # ps
          \<and> (truthy (p_text p)
               \<or> (truthy (p_mediaUrl p) \<and> fst (urlToBase64 e (orEmpty (p_mediaUrl p))) \<noteq> []))
          \<and> (\<forall>parts. generateContent e (length (aiCalls w)) parts = (AiText a, ms))
          \<and> downloadTime e (p_mediaUrl p) + ms \<le> AI_TIMEOUT_MS
          \<longrightarrow> (\<exists>dto sent. ia_tweetId dto = tweetId p \<and> ia_category dto = category a
                  \<and> ia_tags dto = tags a \<and> ia_contracts dto = contracts a
                  \<and> discord (retryFailedAI e n w)
                      = discord w @ (specChannel (category a), dto) # sent
                  \<and> list_all routedRight sent)"
  proof (intro impI, elim conjE)
    assume h: "pendingPosts n w = p # ps"
      "truthy (p_text p)
         \<or> (truthy (p_mediaUrl p) \<and> fst (urlToBase64 e (orEmpty (p_mediaUrl p))) \<noteq> [])"
      "\<forall>parts. generateContent e (length (aiCalls w)) parts = (AiText a, ms)"
      "downloadTime e (p_mediaUrl p) + ms \<le> AI_TIMEOUT_MS"
    from h(3) have ans: "\<And>parts. generateContent e (length (aiCalls w)) parts = (AiText a, ms)"
      by simp
    show "\<exists>dto sent. ia_tweetId dto = tweetId p \<and> ia_category dto = category a
                  \<and> ia_tags dto = tags a \<and> ia_contracts dto = contracts a
                  \<and> discord (retryFailedAI e n w)
                      = discord w @ (specChannel (category a), dto) # sent
                  \<and> list_all routedRight sent"
      by (rule sweep_notifies[OF h(1) h(2) ans h(4) c1 c2])
  qed
  have C: "\<exists>dto. ia_category dto = category a
             \<and> discord (snd (classifiedBranch e key base stamp a w))
                 = discord w @ [(specChannel (category a), dto)]"
    using c2 by (simp add: branch_discord)
  have D: "\<exists>sent. discord (processTweet e t w) = discord w @ sent \<and> list_all routedRight sent"
    by (rule processTweet_routed)
  have E: "\<exists>sent. discord (retryFailedAI e n w) = discord w @ sent \<and> list_all routedRight sent"
    using retryLoop_routed[of e "pendingPosts n w" w] by (simp add: retryFailedAI_def)
  have F: "((\<forall>k parts. generateContent e k parts = (AiText a, ms))
       \<and> (\<forall>q \<in> set (pendingPosts n w).
             (truthy (p_text q)
               \<or> (truthy (p_mediaUrl q) \<and> fst (urlToBase64 e (orEmpty (p_mediaUrl q))) \<noteq> []))
             \<and> downloadTime e (p_mediaUrl q) + ms \<le> AI_TIMEOUT_MS)
       \<longrightarrow> (\<exists>dtos. map ia_tweetId dtos = map tweetId (pendingPosts n w)
               \<and> map ia_category dtos = map (\<lambda>q. category a) (pendingPosts n w)
               \<and> discord (retryFailedAI e n w)
                   = discord w @ map (Pair (specChannel (category a))) dtos))"
  proof (intro impI, elim conjE)
    assume h: "\<forall>k parts. generateContent e k parts = (AiText a, ms)"
      "\<forall>q \<in> set (pendingPosts n w).
          (truthy (p_text q)
            \<or> (truthy (p_mediaUrl q) \<and> fst (urlToBase64 e (orEmpty (p_mediaUrl q))) \<noteq> []))
          \<and> downloadTime e (p_mediaUrl q) + ms \<le> AI_TIMEOUT_MS"
    from h(1) have ans: "\<And>k parts. generateContent e k parts = (AiText a, ms)" by simp
    from h(2) have ok: "\<And>q. q \<in> set (pendingPosts n w) \<Longrightarrow>
          (truthy (p_text q)
            \<or> (truthy (p_mediaUrl q) \<and> fst (urlToBase64 e (orEmpty (p_mediaUrl q))) \<noteq> []))
          \<and> downloadTime e (p_mediaUrl q) + ms \<le> AI_TIMEOUT_MS" by blast
    show "\<exists>dtos. map ia_tweetId dtos = map tweetId (pendingPosts n w)
            \<and> map ia_category dtos = map (\<lambda>q. category a) (pendingPosts n w)
            \<and> discord (retryFailedAI e n w)
                = discord w @ map (Pair (specChannel (category a))) dtos"
      using retryLoop_notifies_all[of e a ms "pendingPosts n w" w, OF ans c1 c2 ok]
      by (simp add: retryFailedAI_def)
  qed
  from A B F C D E show ?thesis by (intro conjI)
qed

theorem C6_witness:
  "category (analysisOf ''Scam Warning'') \<noteq> ''error''
   \<and> category (analysisOf ''Scam Warning'') \<noteq> ''not-relevant''
   \<and> t_url tweet1 = Some ''/user/status/1'' \<and> truthy (t_username tweet1)
   \<and> findOne (posts world0) (Some ''/user/status/1'') = None \<and> truthy (t_text tweet1)
   \<and> (\<forall>parts. generateContent (envWith (AiText (analysisOf ''Scam Warning'')) 100)
                  (length (aiCalls world0)) parts = (AiText (analysisOf ''Scam Warning''), 100))
   \<and> downloadTime (envWith (AiText (analysisOf ''Scam Warning'')) 100) (t_mediaUrl tweet1) + 100
        \<le> 20000
   \<and> (\<exists>dto. ia_tweetId dto = Some ''/user/status/1'' \<and> ia_category dto = ''Scam Warning''
         \<and> discord (processTweet (envWith (AiText (analysisOf ''Scam Warning'')) 100) tweet1 world0)
             = discord world0 @ [(Alerts, dto)])
   \<and> pendingPosts 5 world2 = [post1, post2] \<and> truthy (p_text post1)
   \<and> downloadTime (envWith (AiText (analysisOf ''Scam Warning'')) 100) (p_mediaUrl post1) + 100
        \<le> AI_TIMEOUT_MS
   \<and> (\<exists>dto sent. ia_tweetId dto = tweetId post1 \<and> ia_category dto = ''Scam Warning''
         \<and> discord (retryFailedAI (envWith (AiText (analysisOf ''Scam Warning'')) 100) 5 world2)
             = discord world2 @ (Alerts, dto) # sent
         \<and> list_all routedRight sent)
   \<and> truthy (p_text post2)
   \<and> downloadTime (envWith (AiText (analysisOf ''Scam Warning'')) 100) (p_mediaUrl post2) + 100
        \<le> AI_TIMEOUT_MS
   \<and> (\<exists>dtos. map ia_tweetId dtos = map tweetId [post1, post2]
         \<and> discord (retryFailedAI (envWith (AiText (analysisOf ''Scam Warning'')) 100) 5 world2)
             = discord world2 @ map (Pair Alerts) dtos)"
proof -
  let ?a = "analysisOf ''Scam Warning''"
  let ?e = "envWith (AiText ?a) 100"
  have h1: "category ?a \<noteq> ''error''" by (simp add: analysisOf_def)
  have h2: "category ?a \<noteq> ''not-relevant''" by (simp add: analysisOf_def)
  have c: "category ?a = ''Scam Warning''" by (simp add: analysisOf_def)
  have s: "specChannel ''Scam Warning'' = Alerts" by (simp add: specChannel_def)
  have t1: "t_url tweet1 = Some ''/user/status/1''" by (simp add: tweet1_def)
  have t2: "''/user/status/1'' \<noteq> []" by simp
  have t3: "truthy (t_username tweet1)" by (simp add: tweet1_def truthy_def)
  have t4: "\<not> truthy (t_timestamp tweet1) \<or> validDateString ?e (orEmpty (t_timestamp tweet1))"
    by (simp add: envWith_def)
  have t5: "findOne (posts world0) (Some ''/user/status/1'') = None"
    by (simp add: world0_def findOne_def)
  have t6: "truthy (t_text tweet1)" by (simp add: tweet1_def truthy_def)
  have t7: "\<forall>parts. generateContent ?e (length (aiCalls world0)) parts = (AiText ?a, 100)"
    by (simp add: envWith_def)
  have t8: "downloadTime ?e (t_mediaUrl tweet1) + 100 \<le> 20000"
    by (simp add: downloadTime_def tweet1_def truthy_def)
  have p1: "pendingPosts 5 world2 = [post1, post2]"
    by (simp add: pendingPosts_def world2_def world0_def post1_def post2_def)
  have p2: "truthy (p_text post1)" by (simp add: post1_def truthy_def)
  have p3: "\<forall>parts. generateContent ?e (length (aiCalls world2)) parts = (AiText ?a, 100)"
    by (simp add: envWith_def)
  have p4: "downloadTime ?e (p_mediaUrl post1) + 100 \<le> AI_TIMEOUT_MS"
    by (simp add: downloadTime_def post1_def truthy_def AI_TIMEOUT_MS_def)
  note T = C6_category_routing [OF h1 h2, of tweet1 "''/user/status/1''" ?e world0 100]
  note S = C6_category_routing [OF h1 h2, of _ _ ?e world2 100 5 post1 "[post2]"]
  have r1: "\<exists>dto. ia_tweetId dto = Some ''/user/status/1'' \<and> ia_category dto = category ?a
         \<and> discord (processTweet ?e tweet1 world0)
             = discord world0 @ [(specChannel (category ?a), dto)]"
    using T t1 t2 t3 t4 t5 t6 t7 t8 by blast
  have p7: "truthy (p_text post2)" by (simp add: post2_def truthy_def)
  have p8: "downloadTime ?e (p_mediaUrl post2) + 100 \<le> AI_TIMEOUT_MS"
    by (simp add: downloadTime_def post2_def truthy_def AI_TIMEOUT_MS_def)
  have p5: "\<forall>k parts. generateContent ?e k parts = (AiText ?a, 100)"
    by (simp add: envWith_def)
  have p6: "\<forall>q \<in> set (pendingPosts 5 world2).
         (truthy (p_text q)
           \<or> (truthy (p_mediaUrl q) \<and> fst (urlToBase64 ?e (orEmpty (p_mediaUrl q))) \<noteq> []))
         \<and> downloadTime ?e (p_mediaUrl q) + 100 \<le> AI_TIMEOUT_MS"
    unfolding p1 using p2 p4 p7 p8 by simp
  have r3: "\<exists>dtos. map ia_tweetId dtos = map tweetId (pendingPosts 5 world2)
         \<and> map ia_category dtos = map (\<lambda>q. category ?a) (pendingPosts 5 world2)
         \<and> discord (retryFailedAI ?e 5 world2)
             = discord world2 @ map (Pair (specChannel (category ?a))) dtos"
    using S p5 p6 by blast
  have r3': "\<exists>dtos. map ia_tweetId dtos = map tweetId [post1, post2]
         \<and> discord (retryFailedAI ?e 5 world2)
             = discord world2 @ map (Pair (specChannel (category ?a))) dtos"
    using r3 unfolding p1 by blast
  have r2: "\<exists>dto sent. ia_tweetId dto = tweetId post1 \<and> ia_category dto = category ?a
         \<and> discord (retryFailedAI ?e 5 world2)
             = discord world2 @ (specChannel (category ?a), dto) # sent
         \<and> list_all routedRight sent"
    using S p1 p2 p3 p4 by blast
  show ?thesis
    using h1 h2 t1 t3 t5 t6 t7 t8 p1 p2 p4 p7 p8 r1 r2 r3' unfolding c s by blast
qed

subsection \<open>Status changes in runs without interleaving\<close>

lemma transitionOK_refl: "transitionOK s s"
  by (simp add: transitionOK_def)

lemma transitionOK_trans: "transitionOK s s' \<Longrightarrow> transitionOK s' s'' \<Longrightarrow> transitionOK s s''"
  by (auto simp add: transitionOK_def)

lemma classifyAndBranch_status_other:
  assumes "k \<noteq> t_url t"
  shows "statusOf (classifyAndBranch e t post w) k = statusOf w k"
proof -
  obtain a w1 where st: "storeOf w1 = storeOf (rateGate w)"
    and eq: "classifyAndBranch e t post w =
         (if category a \<noteq> ''error''
          then snd (classifiedBranch e (t_url t)
                      (baseDto (t_url t) (t_username t) (t_text t) (t_mediaUrl t))
                      (newDate (t_timestamp t)) a w1)
          else setStatus (t_url t) ''unprocessed'' w1)"
    using classifyAndBranch_cases by blast
  have "posts w1 = posts w" using st rateGate_fields[of w] by (simp add: storeOf_def)
  then have s1: "statusOf w1 k = statusOf w k" by (simp add: statusOf_def)
  show ?thesis unfolding eq using assms s1
    by (simp add: branch_status statusOf_setStatus)
qed

lemma findOne_append_old:
  "findOne ps k = Some p \<Longrightarrow> findOne (ps @ qs) k = Some p"
  by (induction ps) (auto simp add: findOne_def split: if_splits)

lemma processTweet_status_existing:
  assumes "statusOf w k = Some s"
  shows "statusOf (processTweet e t w) k = Some s"
proof (cases "findOne (posts w) (t_url t)")
  case (Some ex)
  then show ?thesis using assms by (simp add: processTweet_def)
next
  case None
  from assms obtain p where p: "findOne (posts w) k = Some p" "status p = s"
    by (auto simp add: statusOf_def)
  with None have ne: "k \<noteq> t_url t" by auto
  show ?thesis
  proof (cases "savePost e (newPost t (clock w)) (posts w)")
    case N: None
    with None show ?thesis using assms by (simp add: processTweet_def)
  next
    case (Some ps)
    then have ps: "ps = posts w @ [newPost t (clock w)]"
      by (simp add: savePost_def split: if_splits)
    have "statusOf (w\<lparr>posts := ps\<rparr>) k = Some s"
      using findOne_append_old[OF p(1), of "[newPost t (clock w)]"] p(2) ps
      by (simp add: statusOf_def)
    then show ?thesis using None Some ne
      by (simp add: processTweet_def classifyAndBranch_status_other)
  qed
qed

lemma retryOne_status_other:
  assumes "k \<noteq> tweetId p"
  shows "statusOf (snd (retryOne e p w)) k = statusOf w k"
proof -
  obtain a w1 where r: "withTimeout (classifyCall e (p_text p) (p_mediaUrl p)) AI_TIMEOUT_MS errorAnalysis w
          = (Inr a, w1)" and st: "storeOf w1 = storeOf w"
    using withTimeout_classifyCall by blast
  have s1: "statusOf w1 k = statusOf w k" using st by (simp add: storeOf_def statusOf_def)
  show ?thesis using r s1 assms by (simp add: retryOne_def branch_status)
qed

lemma retryOne_status_same:
  assumes "statusOf w (tweetId p) = Some ''unprocessed''"
  shows "\<exists>s'. statusOf (snd (retryOne e p w)) (tweetId p) = Some s'
              \<and> transitionOK ''unprocessed'' s'"
proof -
  obtain a w1 where r: "withTimeout (classifyCall e (p_text p) (p_mediaUrl p)) AI_TIMEOUT_MS errorAnalysis w
          = (Inr a, w1)" and st: "storeOf w1 = storeOf w"
    using withTimeout_classifyCall by blast
  have s1: "statusOf w1 (tweetId p) = Some ''unprocessed''"
    using st assms by (simp add: storeOf_def statusOf_def)
  show ?thesis using r s1 by (simp add: retryOne_def branch_status transitionOK_def)
qed

lemma retryLoop_status_other:
  "k \<notin> set (map tweetId ps) \<Longrightarrow> statusOf (retryLoop e ps w) k = statusOf w k"
proof (induction ps arbitrary: w)
  case Nil
  show ?case by simp
next
  case (Cons p ps)
  obtain f w1 where r: "retryOne e p w = (f, w1)" by (cases "retryOne e p w")
  have k: "k \<noteq> tweetId p" "k \<notin> set (map tweetId ps)" using Cons.prems by auto
  have s1: "statusOf w1 k = statusOf w k" using retryOne_status_other[OF k(1), of e w] r by simp
  show ?case using r s1 Cons.IH[OF k(2), of w1] by (cases f) simp_all
qed

lemma retryLoop_transitions:
  assumes "distinct (map tweetId ps)"
      and "list_all (\<lambda>p. statusOf w (tweetId p) = Some ''unprocessed'') ps"
      and "statusOf w k = Some s"
  shows "\<exists>s'. statusOf (retryLoop e ps w) k = Some s' \<and> transitionOK s s'"
  using assms
proof (induction ps arbitrary: w s)
  case Nil
  then show ?case by (simp add: transitionOK_refl)
next
  case (Cons p ps)
  obtain f w1 where r: "retryOne e p w = (f, w1)" by (cases "retryOne e p w")
  have un: "statusOf w (tweetId p) = Some ''unprocessed''" using Cons.prems(2) by simp
  have step: "\<exists>s1. statusOf w1 k = Some s1 \<and> transitionOK s s1"
  proof (cases "k = tweetId p")
    case True
    with un Cons.prems(3) have "s = ''unprocessed''" by simp
    then show ?thesis using retryOne_status_same[OF un, of e] r True by simp
  next
    case False
    then show ?thesis using retryOne_status_other[OF False, of e w] r Cons.prems(3)
      by (simp add: transitionOK_refl)
  qed
  then obtain s1 where s1: "statusOf w1 k = Some s1" "transitionOK s s1" by blast
  show ?case
  proof (cases f)
    case Returned
    then show ?thesis using r s1 by simp
  next
    case Normal
    have d: "distinct (map tweetId ps)" using Cons.prems(1) by simp
    have inv: "list_all (\<lambda>q. statusOf w1 (tweetId q) = Some ''unprocessed'') ps"
    proof -
      have "\<And>q. q \<in> set ps \<Longrightarrow> statusOf w1 (tweetId q) = Some ''unprocessed''"
      proof -
        fix q assume q: "q \<in> set ps"
        then have ne: "tweetId q \<noteq> tweetId p" using Cons.prems(1) by (auto simp add: image_iff)
        have "statusOf w (tweetId q) = Some ''unprocessed''"
          using Cons.prems(2) q by (simp add: list_all_iff)
        then show "statusOf w1 (tweetId q) = Some ''unprocessed''"
          using retryOne_status_other[OF ne, of e w] r by simp
      qed
      then show ?thesis by (simp add: list_all_iff)
    qed
    obtain s2 where s2: "statusOf (retryLoop e ps w1) k = Some s2" "transitionOK s1 s2"
      using Cons.IH[OF d inv s1(1)] by blast
    show ?thesis using Normal r s2 s1 transitionOK_trans by auto
  qed
qed

lemma find_unique:
  "distinct (map f xs) \<Longrightarrow> x \<in> set xs \<Longrightarrow> List.find (\<lambda>y. f y = f x) xs = Some x"
  by (induction xs) (auto simp add: image_iff)

lemma pending_set: "set (pendingPosts n w) \<subseteq> {p \<in> set (posts w). status p = ''unprocessed''}"
  using set_take_subset[of n "filter (\<lambda>p. status p = ''unprocessed'') (posts w)"]
  by (auto simp add: pendingPosts_def)

lemma pending_distinct: "uniqueIds (posts w) \<Longrightarrow> distinct (map tweetId (pendingPosts n w))"
  by (simp add: uniqueIds_def pendingPosts_def distinct_map_filter take_map[symmetric] distinct_take)

lemma pending_unprocessed:
  assumes "uniqueIds (posts w)"
  shows "list_all (\<lambda>p. statusOf w (tweetId p) = Some ''unprocessed'') (pendingPosts n w)"
proof -
  have "\<And>p. p \<in> set (pendingPosts n w) \<Longrightarrow> statusOf w (tweetId p) = Some ''unprocessed''"
  proof -
    fix p assume "p \<in> set (pendingPosts n w)"
    then have p: "p \<in> set (posts w)" "status p = ''unprocessed''" using pending_set[of n w] by auto
    have "findOne (posts w) (tweetId p) = Some p"
      using find_unique[of tweetId "posts w" p] assms p(1) by (simp add: uniqueIds_def findOne_def)
    then show "statusOf w (tweetId p) = Some ''unprocessed''" using p(2) by (simp add: statusOf_def)
  qed
  then show ?thesis by (simp add: list_all_iff)
qed

lemma sequential_status_transitions:
  assumes u: "uniqueIds (posts w)" and s: "statusOf w k = Some s"
  shows "(\<exists>s'. statusOf (processTweet e t w) k = Some s' \<and> transitionOK s s')
       \<and> (\<exists>s'. statusOf (retryFailedAI e n w) k = Some s' \<and> transitionOK s s')
       \<and> list_all (\<lambda>p. status p = ''unprocessed'') (pendingPosts n w)
       \<and> (\<forall>j < length (pendingPosts n w).
             statusOf (retryLoop e (take j (pendingPosts n w)) w) (tweetId (pendingPosts n w ! j))
               = Some ''unprocessed'')"
proof -
  have a: "\<exists>s'. statusOf (processTweet e t w) k = Some s' \<and> transitionOK s s'"
    using processTweet_status_existing[OF s, of e t] by (simp add: transitionOK_refl)
  have b: "\<exists>s'. statusOf (retryFailedAI e n w) k = Some s' \<and> transitionOK s s'"
    unfolding retryFailedAI_def
    using retryLoop_transitions[OF pending_distinct[OF u] pending_unprocessed[OF u] s] by simp
  have c: "list_all (\<lambda>p. status p = ''unprocessed'') (pendingPosts n w)"
    using pending_set[of n w] by (auto simp add: list_all_iff)
  have d: "\<forall>j < length (pendingPosts n w).
             statusOf (retryLoop e (take j (pendingPosts n w)) w) (tweetId (pendingPosts n w ! j))
               = Some ''unprocessed''"
  proof (intro allI impI)
    fix j assume j: "j < length (pendingPosts n w)"
    let ?ps = "pendingPosts n w"
    have dist: "distinct (map tweetId ?ps)" using pending_distinct[OF u] .
    have "tweetId (?ps ! j) \<notin> set (map tweetId (take j ?ps))"
    proof -
      have "map tweetId ?ps = map tweetId (take j ?ps) @ tweetId (?ps ! j) # map tweetId (drop (Suc j) ?ps)"
        using j by (metis id_take_nth_drop list.simps(9) map_append)
      with dist show ?thesis by (metis distinct_append distinct.simps(2) disjoint_iff list.set_intros(1))
    qed
    then have "statusOf (retryLoop e (take j ?ps) w) (tweetId (?ps ! j)) = statusOf w (tweetId (?ps ! j))"
      by (rule retryLoop_status_other)
    moreover have "statusOf w (tweetId (?ps ! j)) = Some ''unprocessed''"
      using pending_unprocessed[OF u, of n] j by (simp add: list_all_length)
    ultimately show "statusOf (retryLoop e (take j ?ps) w) (tweetId (?ps ! j)) = Some ''unprocessed''"
      by simp
  qed
  show ?thesis using a b c d by blast
qed

subsection \<open>C5: the cursor of the cron job\<close>

lemma saveAndMark_sched:
  "users (saveAndMark e key dto w) = users w \<and> scraperState (saveAndMark e key dto w) = scraperState w
   \<and> scanned (saveAndMark e key dto w) = scanned w"
  by (simp add: saveAndMark_def setStatus_def split: option.splits)

lemma branch_sched:
  "users (snd (classifiedBranch e key base stamp a w)) = users w
   \<and> scraperState (snd (classifiedBranch e key base stamp a w)) = scraperState w
   \<and> scanned (snd (classifiedBranch e key base stamp a w)) = scanned w"
proof -
  obtain en w1 where en: "enrichContracts e (contracts a) w = (en, w1)"
    by (cases "enrichContracts e (contracts a) w")
  from enrich_fields[of e "contracts a" w] en
  have p: "users w1 = users w" "scraperState w1 = scraperState w" "scanned w1 = scanned w"
    by simp_all
  show ?thesis
  proof (cases "category a = ''not-relevant''")
    case True
    then show ?thesis using en p by (simp add: classifiedBranch_def setStatus_def)
  next
    case False
    then show ?thesis using en p
      by (simp add: classifiedBranch_def Let_def switch_send saveAndMark_sched sendToDiscord_def)
  qed
qed

lemma classifyAndBranch_sched:
  "users (classifyAndBranch e t post w) = users w
   \<and> scraperState (classifyAndBranch e t post w) = scraperState w
   \<and> scanned (classifyAndBranch e t post w) = scanned w"
proof -
  obtain a w1 where st: "storeOf w1 = storeOf (rateGate w)"
    and eq: "classifyAndBranch e t post w =
         (if category a \<noteq> ''error''
          then snd (classifiedBranch e (t_url t)
                      (baseDto (t_url t) (t_username t) (t_text t) (t_mediaUrl t))
                      (newDate (t_timestamp t)) a w1)
          else setStatus (t_url t) ''unprocessed'' w1)"
    using classifyAndBranch_cases by blast
  have p: "users w1 = users w" "scraperState w1 = scraperState w" "scanned w1 = scanned w"
    using st rateGate_fields[of w] by (simp_all add: storeOf_def)
  show ?thesis unfolding eq using p by (simp add: branch_sched setStatus_def)
qed

lemma processTweet_sched:
  "users (processTweet e t w) = users w \<and> scraperState (processTweet e t w) = scraperState w
   \<and> scanned (processTweet e t w) = scanned w"
  by (simp add: processTweet_def Let_def classifyAndBranch_sched split: option.splits)

lemma retryOne_sched:
  "users (snd (retryOne e p w)) = users w \<and> scraperState (snd (retryOne e p w)) = scraperState w
   \<and> scanned (snd (retryOne e p w)) = scanned w"
proof -
  obtain a w1 where r: "withTimeout (classifyCall e (p_text p) (p_mediaUrl p)) AI_TIMEOUT_MS errorAnalysis w
          = (Inr a, w1)" and st: "storeOf w1 = storeOf w"
    using withTimeout_classifyCall by blast
  have p: "users w1 = users w" "scraperState w1 = scraperState w" "scanned w1 = scanned w"
    using st by (simp_all add: storeOf_def)
  show ?thesis using r p by (simp add: retryOne_def branch_sched)
qed

lemma retryLoop_sched:
  "users (retryLoop e ps w) = users w \<and> scraperState (retryLoop e ps w) = scraperState w
   \<and> scanned (retryLoop e ps w) = scanned w"
proof (induction ps arbitrary: w)
  case Nil
  show ?case by simp
next
  case (Cons p ps)
  obtain f w1 where r: "retryOne e p w = (f, w1)" by (cases "retryOne e p w")
  show ?case using r retryOne_sched[of e p w] Cons.IH[of w1] by (cases f) simp_all
qed

lemma processAll_sched:
  "users (processAll e src ts w) = users w \<and> scraperState (processAll e src ts w) = scraperState w
   \<and> scanned (processAll e src ts w) = scanned w"
  by (induction ts arbitrary: w) (simp_all add: processTweet_sched)

lemma deepScan_sched:
  "users (snd (processUserAndMentions e user w)) = users w
   \<and> scraperState (snd (processUserAndMentions e user w)) = scraperState w
   \<and> scanned (snd (processUserAndMentions e user w)) = scanned w @ [user]"
  by (simp add: processUserAndMentions_def Let_def retryFailedAI_def retryLoop_sched
      processAll_sched split: option.splits)

lemma deepScan_returns:
  "pageClose e (length (scanned w)) \<Longrightarrow> \<exists>u. fst (processUserAndMentions e user w) = Inr u"
  by (simp add: processUserAndMentions_def Let_def)

lemma cronTick_step:
  assumes ne: "users w \<noteq> []" and lo: "0 \<le> cursorOf w" and hi: "cursorOf w < int (length (users w))"
      and cl: "pageClose e (length (scanned w))"
  shows "users (cronTick e w) = users w
       \<and> scraperState (cronTick e w) = Some ((cursorOf w + 1) mod int (length (users w)))
       \<and> scanned (cronTick e w) = scanned w @ [users w ! nat (cursorOf w)]"
proof -
  let ?w1 = "w\<lparr>scraperState := Some (cursorOf w)\<rparr>"
  have ua: "userAt (users w) (cursorOf w) = Some (users w ! nat (cursorOf w))"
    using lo hi by (simp add: userAt_def)
  obtain r w2 where d: "processUserAndMentions e (users w ! nat (cursorOf w)) ?w1 = (r, w2)"
    by (cases "processUserAndMentions e (users w ! nat (cursorOf w)) ?w1")
  have "\<exists>u. r = Inr u" using deepScan_returns[of e ?w1 "users w ! nat (cursorOf w)"] cl d by simp
  then obtain u where r: "r = Inr u" by blast
  have f: "users w2 = users w" "scanned w2 = scanned w @ [users w ! nat (cursorOf w)]"
    using deepScan_sched[of e "users w ! nat (cursorOf w)" ?w1] d by simp_all
  show ?thesis using ne ua d r f
    by (simp add: cronTick_def Let_def cursorOf_def)
qed

lemma ticks_run:
  assumes ne: "users w \<noteq> []" and lo: "0 \<le> cursorOf w" and hi: "cursorOf w < int (length (users w))"
      and cl: "\<And>n. pageClose e n"
  shows "users (ticks e k w) = users w
       \<and> cursorOf (ticks e k w) = (cursorOf w + int k) mod int (length (users w))
       \<and> scanned (ticks e k w) =
           scanned w @ map (\<lambda>j. users w ! nat ((cursorOf w + int j) mod int (length (users w)))) [0..<k]"
proof (induction k)
  case 0
  show ?case using lo hi by simp
next
  case (Suc k)
  let ?N = "int (length (users w))"
  let ?wk = "ticks e k w"
  have N: "0 < ?N" using ne by simp
  have u: "users ?wk = users w" and c: "cursorOf ?wk = (cursorOf w + int k) mod ?N"
    and sc: "scanned ?wk =
           scanned w @ map (\<lambda>j. users w ! nat ((cursorOf w + int j) mod ?N)) [0..<k]"
    using Suc.IH by simp_all
  have ne': "users ?wk \<noteq> []" using ne u by simp
  have lo': "0 \<le> cursorOf ?wk" using c N by simp
  have hi': "cursorOf ?wk < int (length (users ?wk))" using c N u by simp
  note st = cronTick_step[OF ne' lo' hi' cl]
  have c': "cursorOf (cronTick e ?wk) = (cursorOf w + int (Suc k)) mod ?N"
  proof -
    have "cursorOf (cronTick e ?wk) = (cursorOf ?wk + 1) mod ?N"
      using st u by (simp add: cursorOf_def)
    also have "\<dots> = ((cursorOf w + int k) mod ?N + 1) mod ?N" using c by simp
    also have "\<dots> = (cursorOf w + int k + 1) mod ?N" by (simp add: mod_add_left_eq)
    finally show ?thesis by (simp add: ac_simps)
  qed
  show ?case using st u c c' sc by simp
qed

lemma nat_index:
  assumes "0 \<le> c" and "0 < N"
  shows "nat ((c + int j) mod int N) = (nat c + j) mod N"
proof -
  have "c + int j = int (nat c + j)" using assms by simp
  then have "(c + int j) mod int N = int ((nat c + j) mod N)"
    by (simp only: zmod_int)
  then show ?thesis by simp
qed

lemma rotation_list:
  assumes "0 \<le> c" and "us \<noteq> []"
  shows "map (\<lambda>j. us ! nat ((c + int j) mod int (length us))) [0..<length us] = rotate (nat c) us"
proof (rule nth_equalityI)
  show "length (map (\<lambda>j. us ! nat ((c + int j) mod int (length us))) [0..<length us])
          = length (rotate (nat c) us)" by simp
next
  fix i assume "i < length (map (\<lambda>j. us ! nat ((c + int j) mod int (length us))) [0..<length us])"
  then have i: "i < length us" by simp
  have N: "0 < length us" using assms(2) by simp
  show "map (\<lambda>j. us ! nat ((c + int j) mod int (length us))) [0..<length us] ! i
          = rotate (nat c) us ! i"
    using i nat_index[OF assms(1) N, of i] by (simp add: nth_rotate)
qed

lemma count_rotate: "count_list (rotate n xs) u = count_list xs u"
proof -
  have "count_list (drop (n mod length xs) xs @ take (n mod length xs) xs) u
          = count_list (take (n mod length xs) xs @ drop (n mod length xs) xs) u"
    by (simp only: count_list_append add.commute)
  then show ?thesis by (simp add: rotate_drop_take)
qed

text \<open>
  For a non-empty user list of size \<open>N\<close> that does not change and a cursor in \<open>[0, N)\<close>,
  as long as closing the page of a deep scan does not throw, every run of the cron job
  advances the cursor by one modulo \<open>N\<close>, whatever else the deep scan does (page not
  opened, a scraper returning its error value, classification failing).  So the cursor
  stays in \<open>[0, N)\<close>, \<open>N\<close> runs visit every user exactly once, in list order from the
  cursor, and run \<open>N + 1\<close> visits the first of them again.
\<close>

lemma cursor_rotation:
  assumes ne: "users w \<noteq> []" and lo: "0 \<le> cursorOf w" and hi: "cursorOf w < int (length (users w))"
      and cl: "\<And>n. pageClose e n"
  shows "cursorOf (cronTick e (ticks e k w)) = (cursorOf (ticks e k w) + 1) mod int (length (users w))
       \<and> 0 \<le> cursorOf (ticks e k w) \<and> cursorOf (ticks e k w) < int (length (users w))
       \<and> visited e (length (users w)) w = rotate (nat (cursorOf w)) (users w)
       \<and> (\<forall>u. count_list (visited e (length (users w)) w) u = count_list (users w) u)
       \<and> visited e (Suc (length (users w))) w
           = visited e (length (users w)) w @ [hd (visited e (length (users w)) w)]"
proof -
  let ?N = "length (users w)"
  have N: "0 < ?N" using ne by simp
  note r = ticks_run[OF ne lo hi cl]
  have a: "cursorOf (cronTick e (ticks e k w)) = (cursorOf (ticks e k w) + 1) mod int ?N"
  proof -
    have "cursorOf (ticks e (Suc k) w) = (cursorOf w + int (Suc k)) mod int ?N" using r[of "Suc k"] by blast
    moreover have "cursorOf (ticks e k w) = (cursorOf w + int k) mod int ?N" using r[of k] by blast
    ultimately show ?thesis by (simp add: mod_add_right_eq mod_add_left_eq ac_simps)
  qed
  have b: "0 \<le> cursorOf (ticks e k w) \<and> cursorOf (ticks e k w) < int ?N"
    using r[of k] N by simp
  have v: "\<And>k. visited e k w = map (\<lambda>j. users w ! nat ((cursorOf w + int j) mod int ?N)) [0..<k]"
    using r by (simp add: visited_def)
  have c: "visited e ?N w = rotate (nat (cursorOf w)) (users w)"
    using v[of ?N] rotation_list[OF lo ne] by simp
  have d: "\<forall>u. count_list (visited e ?N w) u = count_list (users w) u"
    using c by (simp add: count_rotate)
  have hdv: "hd (visited e ?N w) = users w ! nat (cursorOf w)"
    using c lo hi N by (simp add: hd_rotate_conv_nth ne)
  have "visited e (Suc ?N) w = visited e ?N w @ [users w ! nat ((cursorOf w + int ?N) mod int ?N)]"
    using v[of "Suc ?N"] v[of ?N] by simp
  moreover have "(cursorOf w + int ?N) mod int ?N = cursorOf w" using lo hi by simp
  ultimately have f: "visited e (Suc ?N) w = visited e ?N w @ [hd (visited e ?N w)]"
    using hdv by simp
  show ?thesis using a b c d f by blast
qed

text \<open>
  C5.  The page of the first deep scan fails to close.  processUserAndMentions awaits
  \<^verbatim>\<open>page.close()\<close> in its \<^verbatim>\<open>finally\<close> block without a guard (runWorker and handleLogin
  wrap theirs in \<^verbatim>\<open>try\<close>), so the error leaves the function, the \<^verbatim>\<open>catch\<close> of the cron
  callback logs it, and the statement that advances the cursor is skipped: the run
  visits the first user and leaves the cursor at 0, and three runs over three users
  visit the first one twice and the last one not at all.
\<close>

theorem C5_cursor_stalls_when_close_throws:
  "users world0 = [''solana'', ''pumpdotfun'', ''DexScreener'']
   \<and> cursorOf world0 = 0
   \<and> pageClose closeFailsEnv 0 = False
   \<and> scanned (cronTick closeFailsEnv world0) = [''solana'']
   \<and> scraperState (cronTick closeFailsEnv world0) = Some 0
   \<and> visited closeFailsEnv 3 world0 = [''solana'', ''solana'', ''pumpdotfun'']"
  by code_simp

subsection \<open>C7: the recovery sweep\<close>

lemma retryOne_ids: "map tweetId (posts (snd (retryOne e p w))) = map tweetId (posts w)"
proof -
  obtain a w1 where r: "withTimeout (classifyCall e (p_text p) (p_mediaUrl p)) AI_TIMEOUT_MS errorAnalysis w
          = (Inr a, w1)" and st: "storeOf w1 = storeOf w"
    using withTimeout_classifyCall by blast
  have "posts w1 = posts w" using st by (simp add: storeOf_def)
  then show ?thesis using r by (simp add: retryOne_def branch_ids)
qed

lemma retryLoop_ids: "map tweetId (posts (retryLoop e ps w)) = map tweetId (posts w)"
proof (induction ps arbitrary: w)
  case Nil
  show ?case by simp
next
  case (Cons p ps)
  obtain f w1 where r: "retryOne e p w = (f, w1)" by (cases "retryOne e p w")
  show ?case using r retryOne_ids[of e p w] Cons.IH[of w1] by (cases f) simp_all
qed

text \<open>The sweep fetches at most \<open>limit\<close> posts, all unprocessed, and inserts no post.\<close>

lemma sweep_bounded:
  "length (pendingPosts limit w) \<le> limit
   \<and> list_all (\<lambda>p. status p = ''unprocessed'') (pendingPosts limit w)
   \<and> map tweetId (posts (retryFailedAI e limit w)) = map tweetId (posts w)"
  using pending_set[of limit w]
  by (auto simp add: pendingPosts_def retryFailedAI_def retryLoop_ids list_all_iff)

text \<open>
  C7.  The sweep does not reach every post of its batch.  On a store with two
  unprocessed posts, with the classifier answering \<open>not-relevant\<close> for the first, both
  posts are fetched, the first is marked discarded, and the \<^verbatim>\<open>return\<close> of line 489 leaves
  retryFailedAI: the classifier is called once and the second post stays unprocessed.
\<close>

theorem C7_sweep_stops_at_not_relevant:
  "pendingPosts 5 world2 = [post1, post2]
   \<and> map status (posts (retryFailedAI sweepEnv 5 world2)) = [''discarded'', ''unprocessed'']
   \<and> aiCalls (retryFailedAI sweepEnv 5 world2) = [0]"
  by code_simp

subsection \<open>C2: the spacing of classifier calls\<close>

text \<open>processTweet waits until the interval since its last call of the classifier is over.\<close>

lemma rateGate_waits:
  "lastAICallTime w + AI_CALL_INTERVAL \<le> clock (rateGate w)
   \<and> lastAICallTime (rateGate w) = clock (rateGate w)"
  by (auto simp add: rateGate_def Let_def sleep_def max_def split: if_splits)

text \<open>
  C2.  The calls of the sweep pass neither that wait nor the limiter.  On a store with
  two unprocessed posts and a classifier that answers after 100 ms, the sweep calls the
  classifier at times 0 and 100: the gap is 100 ms, not 6000 ms.
\<close>

theorem C2_sweep_calls_not_spaced:
  "aiCalls (retryFailedAI (envWith (AiText (analysisOf ''News'')) 100) 5 world2) = [0, 100]"
  by code_simp

subsection \<open>C8: status changes when the sweep meets a post in flight\<close>

lemma inFlight_state:
  "processTweet raceEnv tweet1 world0
     = classifyAndBranch raceEnv tweet1 (newPost tweet1 0) inFlight"
proof -
  have h1: "t_url tweet1 = Some ''/user/status/1''" by (simp add: tweet1_def)
  have h2: "''/user/status/1'' \<noteq> []" by simp
  have h3: "truthy (t_username tweet1)" by (simp add: tweet1_def truthy_def)
  have h4: "\<not> truthy (t_timestamp tweet1)
            \<or> validDateString raceEnv (orEmpty (t_timestamp tweet1))"
    by (simp add: raceEnv_def envSeq_def envWith_def)
  have h5: "findOne (posts world0) (Some ''/user/status/1'') = None"
    by (simp add: world0_def findOne_def)
  show ?thesis
    using processTweet_new [OF h1 h2 h3 h4 h5] by (simp add: inFlight_def world0_def)
qed

lemma sweep_marks_inFlight:
  "statusOf (retryFailedAI raceEnv 5 inFlight) (Some ''/user/status/1'') = Some ''processed''"
  by code_simp

lemma resumed_marks_unprocessed:
  "statusOf (classifyAndBranch raceEnv tweet1 (newPost tweet1 0) (retryFailedAI raceEnv 5 inFlight))
     (Some ''/user/status/1'') = Some ''unprocessed''"
  by code_simp

text \<open>
  C8.  The feed scanner (runWorker, started without \<^verbatim>\<open>await\<close>) calls processTweet while
  the cron job runs deep scans, and each deep scan starts the sweep without \<^verbatim>\<open>await\<close>;
  so the sweep can run at any \<^verbatim>\<open>await\<close> of a processTweet call.  A post that processTweet
  has saved and not yet classified is unprocessed in the store, and the sweep fetches
  it.  Here processTweet has saved its post and waits for its turn; the sweep
  classifies the post (News) and marks it processed; processTweet resumes, its own
  classifier call exceeds the timeout of 20 seconds, and line 214 writes \<open>unprocessed\<close>
  over \<open>processed\<close>.  (Without such an interleaving the statuses only move from
  \<open>unprocessed\<close> to \<open>processed\<close> or \<open>discarded\<close>: lemma \<open>sequential_status_transitions\<close>.)
\<close>

theorem C8_processed_reverts_to_unprocessed:
  "processTweet raceEnv tweet1 world0
     = classifyAndBranch raceEnv tweet1 (newPost tweet1 0) inFlight
   \<and> statusOf (retryFailedAI raceEnv 5 inFlight) (Some ''/user/status/1'') = Some ''processed''
   \<and> statusOf (classifyAndBranch raceEnv tweet1 (newPost tweet1 0)
                 (retryFailedAI raceEnv 5 inFlight))
        (Some ''/user/status/1'') = Some ''unprocessed''"
  using inFlight_state sweep_marks_inFlight resumed_marks_unprocessed by simp

end
